theory Spec2Isabelle
  imports Main
begin

section \<open>Python values\<close>

text \<open>
  The gateway (\<^verbatim>\<open>lambda/websocket.py\<close>) works on decoded JSON: the message body, the
  payload returned by the delegated Lambda, and the frames it pushes to the client.
  A decoded JSON value is a Python \<^verbatim>\<open>None\<close>, \<^verbatim>\<open>bool\<close>, \<^verbatim>\<open>int\<close>, \<^verbatim>\<open>str\<close>, \<^verbatim>\<open>list\<close>
  or \<^verbatim>\<open>dict\<close>. A dict is an association list in insertion order; \<^verbatim>\<open>json.loads\<close>
  never yields a repeated key, and lookup takes the first binding. Floats do not occur in
  any branch condition of the code other than through truthiness and comparison with a
  string, where they behave as an \<^verbatim>\<open>int\<close> does; they are left out of the value type.
  A \<open>string\<close> is a list of characters read as code points below 256.
\<close>

datatype json =
    JNull
  | JBool bool
  | JInt int
  | JStr string
  | JArr "json list"
  | JObj "(string \<times> json) list"

text \<open>Truthiness, as \<^verbatim>\<open>if x:\<close> and \<^verbatim>\<open>not x\<close> test it.\<close>

fun truthy :: "json \<Rightarrow> bool" where
  "truthy JNull = False"
| "truthy (JBool b) = b"
| "truthy (JInt i) = (i \<noteq> 0)"
| "truthy (JStr s) = (s \<noteq> [])"
| "truthy (JArr xs) = (xs \<noteq> [])"
| "truthy (JObj kvs) = (kvs \<noteq> [])"

subsection \<open>String methods\<close>

definition startswith :: "string \<Rightarrow> string \<Rightarrow> bool" where
  "startswith s p = (take (length p) s = p)"

text \<open>\<^verbatim>\<open>s.find(sub)\<close>: the lowest index where \<open>sub\<close> occurs; \<open>None\<close> stands for \<open>-1\<close>.\<close>

fun str_find :: "string \<Rightarrow> string \<Rightarrow> nat option" where
  "str_find [] sub = (if sub = [] then Some 0 else None)"
| "str_find (c # s) sub =
     (if startswith (c # s) sub then Some 0 else map_option Suc (str_find s sub))"

definition str_contains :: "string \<Rightarrow> string \<Rightarrow> bool" where
  "str_contains sub s = (str_find s sub \<noteq> None)"

text \<open>
  \<^verbatim>\<open>s.replace(old, new)\<close> for a non-empty \<open>old\<close>: occurrences are replaced from the left
  and do not overlap. The counter is the number of characters of a matched occurrence
  that are still to be skipped.
\<close>

fun replace_from :: "string \<Rightarrow> string \<Rightarrow> nat \<Rightarrow> string \<Rightarrow> string" where
  "replace_from old new k [] = []"
| "replace_from old new (Suc k) (c # s) = replace_from old new k s"
| "replace_from old new 0 (c # s) =
     (if startswith (c # s) old then new @ replace_from old new (length old - 1) s
      else c # replace_from old new 0 s)"

definition str_replace :: "string \<Rightarrow> string \<Rightarrow> string \<Rightarrow> string" where
  "str_replace s old new = replace_from old new 0 s"

text \<open>The characters \<^verbatim>\<open>str.split()\<close> and \<^verbatim>\<open>str.strip()\<close> treat as whitespace.\<close>

definition is_space :: "char \<Rightarrow> bool" where
  "is_space c = (of_char c \<in> {9, 10, 11, 12, 13, 28, 29, 30, 31, 32, 133, 160 :: nat})"

text \<open>\<^verbatim>\<open>s.split()\<close>: the maximal runs of non-whitespace; \<open>w\<close> is the run being read.\<close>

fun split_from :: "string \<Rightarrow> string \<Rightarrow> string list" where
  "split_from w [] = (if w = [] then [] else [w])"
| "split_from w (c # s) =
     (if is_space c then (if w = [] then split_from [] s else w # split_from [] s)
      else split_from (w @ [c]) s)"

definition str_split :: "string \<Rightarrow> string list" where
  "str_split s = split_from [] s"

fun str_join :: "string \<Rightarrow> string list \<Rightarrow> string" where
  "str_join sep [] = []"
| "str_join sep [x] = x"
| "str_join sep (x # y # xs) = x @ sep @ str_join sep (y # xs)"

definition lstrip_chars :: "string \<Rightarrow> string \<Rightarrow> string" where
  "lstrip_chars s cs = dropWhile (\<lambda>c. c \<in> set cs) s"

definition rstrip_chars :: "string \<Rightarrow> string \<Rightarrow> string" where
  "rstrip_chars s cs = rev (dropWhile (\<lambda>c. c \<in> set cs) (rev s))"

definition strip_chars :: "string \<Rightarrow> string \<Rightarrow> string" where
  "strip_chars s cs = rstrip_chars (lstrip_chars s cs) cs"

definition str_strip :: "string \<Rightarrow> string" where
  "str_strip s = rev (dropWhile is_space (rev (dropWhile is_space s)))"

subsection \<open>Printing values\<close>

definition digit_char :: "nat \<Rightarrow> char" where
  "digit_char d = char_of (48 + d)"

fun dec_nat :: "nat \<Rightarrow> string" where
  "dec_nat n = (if n < 10 then [digit_char n] else dec_nat (n div 10) @ [digit_char (n mod 10)])"

declare dec_nat.simps [simp del]

definition dec_int :: "int \<Rightarrow> string" where
  "dec_int i = (if i < 0 then CHR ''-'' # dec_nat (nat (- i)) else dec_nat (nat i))"

definition hex_digit :: "nat \<Rightarrow> char" where
  "hex_digit d = (if d < 10 then char_of (48 + d) else char_of (87 + d))"

definition hex2 :: "char \<Rightarrow> string" where
  "hex2 c = [hex_digit (of_char c div 16), hex_digit (of_char c mod 16)]"

text \<open>
  \<^verbatim>\<open>json.dumps\<close> with its defaults: separators \<^verbatim>\<open>", "\<close> and \<^verbatim>\<open>": "\<close>, and
  \<^verbatim>\<open>ensure_ascii\<close>, so that every character outside the range from space to tilde is
  escaped.
\<close>

definition json_escape_char :: "char \<Rightarrow> string" where
  "json_escape_char c =
     (if c = CHR 0x22 then [CHR 0x5C, CHR 0x22]
      else if c = CHR 0x5C then [CHR 0x5C, CHR 0x5C]
      else if c = CHR 0x0A then [CHR 0x5C, CHR ''n'']
      else if c = CHR 0x0D then [CHR 0x5C, CHR ''r'']
      else if c = CHR 0x09 then [CHR 0x5C, CHR ''t'']
      else if c = CHR 0x08 then [CHR 0x5C, CHR ''b'']
      else if c = CHR 0x0C then [CHR 0x5C, CHR ''f'']
      else if (of_char c :: nat) < 32 \<or> (of_char c :: nat) > 126
        then [CHR 0x5C, CHR ''u'', CHR ''0'', CHR ''0''] @ hex2 c
      else [c])"

definition json_quote :: "string \<Rightarrow> string" where
  "json_quote s = [CHR 0x22] @ concat (map json_escape_char s) @ [CHR 0x22]"

fun json_dumps :: "json \<Rightarrow> string" where
  "json_dumps JNull = ''null''"
| "json_dumps (JBool b) = (if b then ''true'' else ''false'')"
| "json_dumps (JInt i) = dec_int i"
| "json_dumps (JStr s) = json_quote s"
| "json_dumps (JArr xs) = ''['' @ str_join '', '' (map json_dumps xs) @ '']''"
| "json_dumps (JObj kvs) =
     ''{'' @ str_join '', '' (map (\<lambda>(k, v). json_quote k @ '': '' @ json_dumps v) kvs) @ ''}''"

text \<open>
  \<^verbatim>\<open>repr\<close> of a string: single quotes, unless the string holds a single quote and no
  double quote; the quote in use, the backslash, tab, newline and carriage return are
  escaped, and so is every character that is not printable.
\<close>

definition printable :: "char \<Rightarrow> bool" where
  "printable c = (let n = (of_char c :: nat) in (32 \<le> n \<and> n < 127) \<or> (161 \<le> n \<and> n \<noteq> 173))"

definition repr_char :: "char \<Rightarrow> char \<Rightarrow> string" where
  "repr_char q c =
     (if c = q \<or> c = CHR 0x5C then [CHR 0x5C, c]
      else if c = CHR 0x09 then [CHR 0x5C, CHR ''t'']
      else if c = CHR 0x0A then [CHR 0x5C, CHR ''n'']
      else if c = CHR 0x0D then [CHR 0x5C, CHR ''r'']
      else if \<not> printable c then [CHR 0x5C, CHR ''x''] @ hex2 c
      else [c])"

definition repr_str :: "string \<Rightarrow> string" where
  "repr_str s =
     (let q = (if CHR 0x27 \<in> set s \<and> CHR 0x22 \<notin> set s then CHR 0x22 else CHR 0x27)
      in [q] @ concat (map (repr_char q) s) @ [q])"

fun py_repr :: "json \<Rightarrow> string" where
  "py_repr JNull = ''None''"
| "py_repr (JBool b) = (if b then ''True'' else ''False'')"
| "py_repr (JInt i) = dec_int i"
| "py_repr (JStr s) = repr_str s"
| "py_repr (JArr xs) = ''['' @ str_join '', '' (map py_repr xs) @ '']''"
| "py_repr (JObj kvs) =
     ''{'' @ str_join '', '' (map (\<lambda>(k, v). repr_str k @ '': '' @ py_repr v) kvs) @ ''}''"

text \<open>\<^verbatim>\<open>str(x)\<close>: a string is itself, every other value prints as its \<^verbatim>\<open>repr\<close>.\<close>

definition py_str :: "json \<Rightarrow> string" where
  "py_str x = (case x of JStr s \<Rightarrow> s | _ \<Rightarrow> py_repr x)"

section \<open>Response normalisation\<close>

text \<open>
  \<^verbatim>\<open>extract_html_content\<close>: the first \<^verbatim>\<open><html>...</html>\<close> block (the pattern
  \<^verbatim>\<open><html>.*?</html>\<close> with \<^verbatim>\<open>DOTALL\<close>: from the first opening tag to the first closing
  tag after it), else the first \<^verbatim>\<open><body>...</body>\<close> block, else the text. On a string
  nothing in the function raises, so its \<^verbatim>\<open>except\<close> branch is not taken.
\<close>

definition search_block :: "string \<Rightarrow> string \<Rightarrow> string \<Rightarrow> string option" where
  "search_block opening closing text =
     (case str_find text opening of
        None \<Rightarrow> None
      | Some i \<Rightarrow>
          (case str_find (drop (i + length opening) text) closing of
             None \<Rightarrow> None
           | Some k \<Rightarrow> Some (take (length opening + k + length closing) (drop i text))))"

definition extract_html_content :: "string \<Rightarrow> string" where
  "extract_html_content text =
     (case search_block ''<html>'' ''</html>'' text of
        Some html_match \<Rightarrow> html_match
      | None \<Rightarrow>
          (case search_block ''<body>'' ''</body>'' text of
             Some body_match \<Rightarrow> body_match
           | None \<Rightarrow>
               if str_contains ''<div'' text \<and> str_contains ''</div>'' text then text
               else text))"

text \<open>
  \<^verbatim>\<open>clean_html_response\<close>. The pattern \<^verbatim>\<open></[^>]+>(?=[^<]*$)\<close> matches at a position
  when the text there reads \<^verbatim>\<open></\<close>, at least one character other than \<^verbatim>\<open>>\<close>, then
  \<^verbatim>\<open>>\<close>, and no \<^verbatim>\<open><\<close> follows up to the end; \<open>closing_tag_at\<close> gives the length of
  the match and \<open>last_tag_match\<close> the end of the leftmost one, as \<^verbatim>\<open>re.search\<close> does.
\<close>

definition html_start_patterns :: "string list" where
  "html_start_patterns = [''<div'', ''<html'', ''<body'', ''<section'', ''<h1'']"

definition find_start_index :: "string \<Rightarrow> nat option" where
  "find_start_index response_text =
     fold (\<lambda>pattern start_index.
             case str_find response_text pattern of
               None \<Rightarrow> start_index
             | Some index \<Rightarrow>
                 (case start_index of
                    None \<Rightarrow> Some index
                  | Some si \<Rightarrow> if index < si then Some index else Some si))
          html_start_patterns None"

definition closing_tag_at :: "string \<Rightarrow> nat option" where
  "closing_tag_at s =
     (case s of
        c1 # c2 # rest \<Rightarrow>
          if c1 = CHR ''<'' \<and> c2 = CHR ''/'' then
            (let name = takeWhile (\<lambda>c. c \<noteq> CHR ''>'') rest;
                 after = dropWhile (\<lambda>c. c \<noteq> CHR ''>'') rest
             in if name \<noteq> [] \<and> after \<noteq> [] \<and> CHR ''<'' \<notin> set (tl after)
                then Some (length name + 3) else None)
          else None
      | _ \<Rightarrow> None)"

fun last_tag_match :: "string \<Rightarrow> nat option" where
  "last_tag_match [] = None"
| "last_tag_match (c # s) =
     (case closing_tag_at (c # s) of
        Some e \<Rightarrow> Some e
      | None \<Rightarrow> map_option Suc (last_tag_match s))"

definition clean_html_response :: "string \<Rightarrow> string" where
  "clean_html_response raw_response =
     (if raw_response = [] then []
      else
        let response_text = raw_response;
            response_text = str_replace response_text [CHR 0x5C, CHR ''n''] [];
            response_text = str_replace response_text [CHR 0x0A] '' '';
            response_text = str_replace response_text [CHR 0x0D] [];
            response_text = str_replace response_text [CHR 0x09] '' '';
            response_text = str_join '' '' (str_split response_text);
            response_text = rstrip_chars response_text ''}])'';
            response_text = strip_chars response_text [CHR 0x22, CHR 0x27];
            response_text =
              (case find_start_index response_text of
                 Some start_index \<Rightarrow>
                   if start_index > 0 then drop start_index response_text else response_text
               | None \<Rightarrow> response_text);
            response_text =
              (if CHR ''<'' \<in> set response_text
               then dropWhile (\<lambda>c. c \<noteq> CHR ''<'') response_text else response_text);
            response_text =
              (if response_text \<noteq> [] \<and> \<not> startswith response_text ''<''
               then ''<div>'' @ response_text @ ''</div>'' else response_text);
            response_text =
              (case last_tag_match response_text of
                 Some e \<Rightarrow> take e response_text
               | None \<Rightarrow> response_text)
        in str_strip response_text)"

section \<open>Exceptions, the environment and the state\<close>

text \<open>
  An exception is its class and its \<^verbatim>\<open>str(e)\<close>. The code branches on the class only for
  \<^verbatim>\<open>GoneException\<close>; every other handler is \<^verbatim>\<open>except Exception\<close>. The wording CPython
  gives the exceptions it raises itself differs between versions, so it is a parameter
  of the environment (\<open>builtin_text\<close>), applied to the operand at fault.
\<close>

datatype exn_kind =
    KeyError | TypeError | AttributeError | ValueError | IndexError | UnboundLocalError
  | JSONDecodeError | UnicodeDecodeError | RequestException | GoneException
  | ServiceError | RaisedException

datatype exn = Exn exn_kind string

fun kind :: "exn \<Rightarrow> exn_kind" where
  "kind (Exn k t) = k"

fun str_exn :: "exn \<Rightarrow> string" where
  "str_exn (Exn k t) = t"

text \<open>
  One unit of the stream \<^verbatim>\<open>response['completion']\<close> of the streaming backend: a dict that
  may hold a \<^verbatim>\<open>chunk\<close> (which may hold \<^verbatim>\<open>bytes\<close>, which decode as UTF-8 or do not) and
  may hold a \<^verbatim>\<open>trace\<close>. The stream yields its items and then ends, or fails.
\<close>

datatype bytes = Decodable string | Undecodable

record chunk =
  bytes :: "bytes option"

record event_item =
  chunk :: "chunk option"
  trace :: "json option"

record event_stream =
  items :: "event_item list"
  failure :: "exn option"

record conn_item =
  ttl :: int
  timestamp :: string

record wo_update =
  work_order_id :: json
  safetyCheckResponse :: string
  safetyCheckPerformedAt :: string

text \<open>
  The state a request can change: the frames handed to \<^verbatim>\<open>post_to_connection\<close> (the
  connection and the envelope that is serialised as \<^verbatim>\<open>Data\<close>), the connection table,
  the calls made to the two backends (\<^verbatim>\<open>lambda_client.invoke\<close> with its function name and
  payload, \<^verbatim>\<open>invoke_agent\<close> with its input parameters), the updates made to the
  work-order table, and how often the clock, the UUID source and DynamoDB have been
  called. Log output has no effect on control flow and is left
  out.
\<close>

datatype backend_call =
    LambdaInvoke "string option" string
  | InvokeAgent string string string json

record state =
  clock :: nat
  uuids :: nat
  ddb_calls :: nat
  posted :: "(string \<times> json) list"
  backend_calls :: "backend_call list"
  ws_connection_table :: "string \<rightharpoonup> conn_item"
  work_orders :: "wo_update list"

text \<open>
  The environment: the module's configuration, the library calls and the external
  services. The clock, the UUID source, the push endpoint and DynamoDB answer by the
  number of the call, so that two calls of one request can differ. A failed DynamoDB
  call leaves its table as it was.
\<close>

record world =
  BEDROCK_AGENT_ID :: "string option"
  BEDROCK_AGENT_ALIAS_ID :: "string option"
  STRANDS_AGENT_ID :: "string option"
  WORK_ORDERS_TABLE_NAME :: "string option"
  json_loads :: "string \<Rightarrow> json option"
  builtin_text :: "exn_kind \<Rightarrow> json \<Rightarrow> string"
  now_isoformat :: "nat \<Rightarrow> string"
  now_str :: "nat \<Rightarrow> string"
  time_time :: "nat \<Rightarrow> int"
  uuid4 :: "nat \<Rightarrow> string"
  post_to_connection :: "nat \<Rightarrow> exn option"
  dynamodb :: "nat \<Rightarrow> exn option"
  lambda_invoke :: "string option \<Rightarrow> string \<Rightarrow> exn + string"
  invoke_agent :: "string \<Rightarrow> string \<Rightarrow> string \<Rightarrow> json \<Rightarrow> exn + event_stream"
  jwks :: "exn + json"
  jwt_get_unverified_header :: "json \<Rightarrow> exn + json"
  jwt_decode :: "json \<Rightarrow> json \<Rightarrow> exn + json"

record api_client =
  endpoint_url :: string

record response =
  statusCode :: int
  body :: string

record request_context =
  routeKey :: "string option"
  connectionId :: "string option"
  domainName :: "string option"
  stage :: "string option"

record event =
  requestContext :: "request_context option"
  raw_body :: "string option"

subsection \<open>Computations that may raise\<close>

text \<open>
  A pure step is a value or an exception; a step with effects takes the state and
  returns the state with it. \<open>seq\<close> runs the next step unless the first raised;
  \<open>try_except\<close> is \<^verbatim>\<open>try: ... except Exception as e: ...\<close>.
\<close>

type_synonym 'a action = "state \<Rightarrow> (exn + 'a) \<times> state"

definition and_then :: "exn + 'a \<Rightarrow> ('a \<Rightarrow> exn + 'b) \<Rightarrow> exn + 'b" where
  "and_then r f = (case r of Inl e \<Rightarrow> Inl e | Inr x \<Rightarrow> f x)"

definition ret :: "'a \<Rightarrow> 'a action" where
  "ret x s = (Inr x, s)"

definition throw :: "exn \<Rightarrow> 'a action" where
  "throw e s = (Inl e, s)"

definition lift :: "exn + 'a \<Rightarrow> 'a action" where
  "lift r s = (r, s)"

definition seq :: "'a action \<Rightarrow> ('a \<Rightarrow> 'b action) \<Rightarrow> 'b action" where
  "seq m f s = (case m s of (Inl e, s') \<Rightarrow> (Inl e, s') | (Inr x, s') \<Rightarrow> f x s')"

definition try_except :: "'a action \<Rightarrow> (exn \<Rightarrow> 'a action) \<Rightarrow> 'a action" where
  "try_except m h s = (case m s of (Inl e, s') \<Rightarrow> h e s' | (Inr x, s') \<Rightarrow> (Inr x, s'))"

subsection \<open>Operations on values\<close>

definition builtin_error :: "world \<Rightarrow> exn_kind \<Rightarrow> json \<Rightarrow> exn" where
  "builtin_error w k x = Exn k (builtin_text w k x)"

text \<open>\<^verbatim>\<open>key in x\<close>, for a string \<open>key\<close>.\<close>

definition py_in :: "world \<Rightarrow> string \<Rightarrow> json \<Rightarrow> exn + bool" where
  "py_in w key x =
     (case x of
        JObj kvs \<Rightarrow> Inr (map_of kvs key \<noteq> None)
      | JArr xs \<Rightarrow> Inr (JStr key \<in> set xs)
      | JStr s \<Rightarrow> Inr (str_contains key s)
      | _ \<Rightarrow> Inl (builtin_error w TypeError x))"

text \<open>\<^verbatim>\<open>x[key]\<close>, for a string \<open>key\<close>.\<close>

definition py_getitem :: "world \<Rightarrow> json \<Rightarrow> string \<Rightarrow> exn + json" where
  "py_getitem w x key =
     (case x of
        JObj kvs \<Rightarrow>
          (case map_of kvs key of Some v \<Rightarrow> Inr v | None \<Rightarrow> Inl (Exn KeyError (repr_str key)))
      | _ \<Rightarrow> Inl (builtin_error w TypeError x))"

text \<open>\<^verbatim>\<open>x.get(key, default)\<close>: only a dict has the method.\<close>

definition py_get :: "world \<Rightarrow> json \<Rightarrow> string \<Rightarrow> json \<Rightarrow> exn + json" where
  "py_get w x key dflt =
     (case x of
        JObj kvs \<Rightarrow> Inr (case map_of kvs key of Some v \<Rightarrow> v | None \<Rightarrow> dflt)
      | _ \<Rightarrow> Inl (builtin_error w AttributeError x))"

definition is_list :: "json \<Rightarrow> bool" where
  "is_list x = (case x of JArr xs \<Rightarrow> True | _ \<Rightarrow> False)"

definition opt_truthy :: "string option \<Rightarrow> bool" where
  "opt_truthy x = (case x of None \<Rightarrow> False | Some s \<Rightarrow> s \<noteq> [])"

definition opt_str :: "string option \<Rightarrow> string" where
  "opt_str x = (case x of None \<Rightarrow> ''None'' | Some s \<Rightarrow> s)"

text \<open>\<^verbatim>\<open>a == b\<close> on decoded JSON: a bool compares as the int it is, dicts by their items.\<close>

fun py_eq :: "json \<Rightarrow> json \<Rightarrow> bool" where
  "py_eq JNull JNull = True"
| "py_eq (JBool a) (JBool b) = (a = b)"
| "py_eq (JBool a) (JInt j) = ((if a then 1 else 0) = j)"
| "py_eq (JInt i) (JBool b) = (i = (if b then 1 else 0))"
| "py_eq (JInt i) (JInt j) = (i = j)"
| "py_eq (JStr s) (JStr t) = (s = t)"
| "py_eq (JArr xs) (JArr ys) = list_all2 py_eq xs ys"
| "py_eq (JObj kvs) (JObj kvs') =
     (length kvs = length kvs' \<and>
      list_all (\<lambda>(k, v). case map_of kvs' k of None \<Rightarrow> False | Some v' \<Rightarrow> py_eq v v') kvs)"
| "py_eq _ _ = False"

subsection \<open>Clock, identifiers and DynamoDB\<close>

definition read_time_time :: "world \<Rightarrow> int action" where
  "read_time_time w s = (Inr (time_time w (clock s)), s\<lparr>clock := Suc (clock s)\<rparr>)"

definition read_now_isoformat :: "world \<Rightarrow> string action" where
  "read_now_isoformat w s = (Inr (now_isoformat w (clock s)), s\<lparr>clock := Suc (clock s)\<rparr>)"

definition read_now_str :: "world \<Rightarrow> string action" where
  "read_now_str w s = (Inr (now_str w (clock s)), s\<lparr>clock := Suc (clock s)\<rparr>)"

definition read_uuid4 :: "world \<Rightarrow> string action" where
  "read_uuid4 w s = (Inr (uuid4 w (uuids s)), s\<lparr>uuids := Suc (uuids s)\<rparr>)"

definition ddb_call :: "world \<Rightarrow> unit action" where
  "ddb_call w s =
     (case dynamodb w (ddb_calls s) of
        None \<Rightarrow> (Inr (), s\<lparr>ddb_calls := Suc (ddb_calls s)\<rparr>)
      | Some e \<Rightarrow> (Inl e, s\<lparr>ddb_calls := Suc (ddb_calls s)\<rparr>))"

definition put_item :: "world \<Rightarrow> string \<Rightarrow> conn_item \<Rightarrow> unit action" where
  "put_item w connection_id item =
     seq (ddb_call w) (\<lambda>_ s.
       (Inr (), s\<lparr>ws_connection_table := (ws_connection_table s)(connection_id \<mapsto> item)\<rparr>))"

definition delete_item :: "world \<Rightarrow> string \<Rightarrow> unit action" where
  "delete_item w connection_id =
     seq (ddb_call w) (\<lambda>_ s.
       (Inr (), s\<lparr>ws_connection_table := (ws_connection_table s)(connection_id := None)\<rparr>))"

definition update_item :: "world \<Rightarrow> wo_update \<Rightarrow> unit action" where
  "update_item w u =
     seq (ddb_call w) (\<lambda>_ s. (Inr (), s\<lparr>work_orders := work_orders s @ [u]\<rparr>))"

definition call_lambda_invoke :: "world \<Rightarrow> string option \<Rightarrow> string \<Rightarrow> string action" where
  "call_lambda_invoke w function_name payload s =
     (lambda_invoke w function_name payload,
      s\<lparr>backend_calls := backend_calls s @ [LambdaInvoke function_name payload]\<rparr>)"

definition call_invoke_agent ::
  "world \<Rightarrow> string \<Rightarrow> string \<Rightarrow> string \<Rightarrow> json \<Rightarrow> event_stream action" where
  "call_invoke_agent w input_text agent_id agent_alias_id session_id s =
     (invoke_agent w input_text agent_id agent_alias_id session_id,
      s\<lparr>backend_calls := backend_calls s
             @ [InvokeAgent input_text agent_id agent_alias_id session_id]\<rparr>)"

section \<open>Client notifier\<close>

text \<open>
  \<^verbatim>\<open>send_to_client\<close>. The frame is handed to \<^verbatim>\<open>post_to_connection\<close> inside an envelope;
  \<open>posted\<close> records every frame handed over, delivered or not.
\<close>

definition envelope :: "json \<Rightarrow> string \<Rightarrow> string \<Rightarrow> json" where
  "envelope message connection_id current_time =
     JObj [(''message'', message), (''sender'', JStr connection_id),
           (''timestamp'', JStr current_time)]"

definition post_frame :: "world \<Rightarrow> string \<Rightarrow> json \<Rightarrow> unit action" where
  "post_frame w connection_id message =
     seq (read_now_str w) (\<lambda>current_time s.
       let data = envelope message connection_id current_time;
           n = length (posted s);
           s' = s\<lparr>posted := posted s @ [(connection_id, data)]\<rparr>
       in (case post_to_connection w n of None \<Rightarrow> (Inr (), s') | Some e \<Rightarrow> (Inl e, s')))"

definition send_to_client :: "world \<Rightarrow> api_client \<Rightarrow> string \<Rightarrow> json \<Rightarrow> unit action" where
  "send_to_client w api_gateway_management connection_id message =
     try_except (post_frame w connection_id message)
       (\<lambda>e. if kind e = GoneException
             then try_except (delete_item w connection_id) (\<lambda>e'. ret ())
             else ret ())"

section \<open>Connection lifecycle\<close>

definition handle_connect :: "world \<Rightarrow> string \<Rightarrow> response action" where
  "handle_connect w connection_id =
     try_except
       (seq (read_time_time w) (\<lambda>t.
        seq (read_now_str w) (\<lambda>now.
        seq (put_item w connection_id \<lparr>ttl = t + 10 * 60, timestamp = now\<rparr>) (\<lambda>_.
        ret \<lparr>statusCode = 200, body = ''Connected''\<rparr>))))
       (\<lambda>e. ret \<lparr>statusCode = 200, body = ''Connected''\<rparr>)"

definition handle_disconnect :: "world \<Rightarrow> string \<Rightarrow> response action" where
  "handle_disconnect w connection_id =
     try_except
       (seq (delete_item w connection_id) (\<lambda>_.
        ret \<lparr>statusCode = 200, body = ''Disconnected''\<rparr>))
       (\<lambda>e. ret \<lparr>statusCode = 200, body = ''Disconnected''\<rparr>)"

section \<open>Agent invocation strategies\<close>

subsection \<open>Variant A: the streaming backend\<close>

text \<open>The frames Variant A sends: a trace, and its two error frames.\<close>

definition trace_frame :: "json \<Rightarrow> json" where
  "trace_frame tr =
     JObj [(''type'', JStr ''trace''), (''content'', tr),
           (''agentFramework'', JStr ''BedrockAgent'')]"

definition bedrock_config_error_frame :: "string \<Rightarrow> json" where
  "bedrock_config_error_frame error_msg =
     JObj [(''type'', JStr ''error''), (''message'', JStr error_msg),
           (''agentFramework'', JStr ''BedrockAgent'')]"

definition bedrock_error_frame :: "string \<Rightarrow> json" where
  "bedrock_error_frame error_msg =
     JObj [(''type'', JStr ''error''), (''content'', JStr error_msg),
           (''agentFramework'', JStr ''BedrockAgent'')]"

text \<open>
  The body of the loop of \<^verbatim>\<open>invoke_bedrock_agent\<close>: a chunk with bytes is decoded and
  appended to \<open>completion\<close>, then a trace of the same item is sent to the client at once.
  The step returns the new \<open>completion\<close>.
\<close>

definition process_event_item ::
  "world \<Rightarrow> api_client \<Rightarrow> string \<Rightarrow> string \<Rightarrow> event_item \<Rightarrow> string action" where
  "process_event_item w api_gateway_management connection_id completion event_item =
     seq (case chunk event_item of
            None \<Rightarrow> ret completion
          | Some ch \<Rightarrow>
              (case bytes ch of
                 None \<Rightarrow> ret completion
               | Some (Decodable chunk_data) \<Rightarrow> ret (completion @ chunk_data)
               | Some Undecodable \<Rightarrow> throw (builtin_error w UnicodeDecodeError JNull)))
       (\<lambda>completion.
          case trace event_item of
            None \<Rightarrow> ret completion
          | Some tr \<Rightarrow>
              seq (read_time_time w) (\<lambda>t.
              seq (send_to_client w api_gateway_management connection_id (trace_frame tr))
                (\<lambda>_.
              ret completion)))"

fun process_events ::
  "world \<Rightarrow> api_client \<Rightarrow> string \<Rightarrow> string \<Rightarrow> event_item list \<Rightarrow> string action" where
  "process_events w api_gateway_management connection_id completion [] = ret completion"
| "process_events w api_gateway_management connection_id completion (event_item # rest) =
     seq (process_event_item w api_gateway_management connection_id completion event_item)
       (\<lambda>completion. process_events w api_gateway_management connection_id completion rest)"

definition invoke_bedrock_agent ::
  "world \<Rightarrow> string \<Rightarrow> json \<Rightarrow> api_client \<Rightarrow> string \<Rightarrow> string action" where
  "invoke_bedrock_agent w payload session_id api_gateway_management connection_id =
     try_except
       (if \<not> opt_truthy (BEDROCK_AGENT_ID w) \<or> \<not> opt_truthy (BEDROCK_AGENT_ALIAS_ID w) then
          (let error_msg = ''Bedrock agent IDs not configured. BEDROCK_AGENT_ID: ''
                 @ opt_str (BEDROCK_AGENT_ID w) @ '', BEDROCK_AGENT_ALIAS_ID: ''
                 @ opt_str (BEDROCK_AGENT_ALIAS_ID w)
           in seq (send_to_client w api_gateway_management connection_id
                     (bedrock_config_error_frame error_msg)) (\<lambda>_.
              ret error_msg))
        else
          seq (call_invoke_agent w payload (opt_str (BEDROCK_AGENT_ID w))
                 (opt_str (BEDROCK_AGENT_ALIAS_ID w)) session_id) (\<lambda>response.
          seq (process_events w api_gateway_management connection_id [] (items response))
            (\<lambda>completion.
          case failure response of
            Some e \<Rightarrow> throw e
          | None \<Rightarrow> ret completion)))
       (\<lambda>e.
          let error_msg = ''Error invoking Bedrock agent: '' @ str_exn e
          in seq (send_to_client w api_gateway_management connection_id
                    (bedrock_error_frame error_msg)) (\<lambda>_.
             ret error_msg))"

subsection \<open>Variant B: the delegating backend\<close>

text \<open>
  The extraction of the text from the decoded \<^verbatim>\<open>body\<close> (here \<open>body_obj\<close>) of the delegated result (the
  \<^verbatim>\<open>if 'response' in body: ... elif ... else\<close> chain of \<^verbatim>\<open>invoke_strands_agent\<close>).
  The two loops over a content list add to \<open>completion\<close> item by item.
\<close>

definition response_content_item :: "world \<Rightarrow> json \<Rightarrow> exn + string" where
  "response_content_item w content_item =
     (case content_item of
        JObj kvs \<Rightarrow>
          (case map_of kvs ''text'' of
             Some text_content \<Rightarrow> Inr (py_str text_content)
           | None \<Rightarrow> Inr (py_str content_item))
      | JStr s \<Rightarrow> Inr s
      | _ \<Rightarrow> Inr (py_str content_item))"

definition body_content_item :: "world \<Rightarrow> json \<Rightarrow> exn + string" where
  "body_content_item w content_item =
     (case content_item of
        JObj kvs \<Rightarrow>
          (if map_of kvs ''type'' = Some (JStr ''text'') \<and> map_of kvs ''text'' \<noteq> None
           then Inr (py_str (the (map_of kvs ''text'')))
           else (case map_of kvs ''text'' of
                   Some text_content \<Rightarrow> Inr (py_str text_content)
                 | None \<Rightarrow> Inr []))
      | JStr s \<Rightarrow> Inr s
      | _ \<Rightarrow> Inr (py_str content_item))"

fun add_content :: "(json \<Rightarrow> exn + string) \<Rightarrow> string \<Rightarrow> json list \<Rightarrow> exn + string" where
  "add_content f completion [] = Inr completion"
| "add_content f completion (content_item # rest) =
     and_then (f content_item) (\<lambda>t. add_content f (completion @ t) rest)"

definition extract_completion :: "world \<Rightarrow> json \<Rightarrow> exn + string" where
  "extract_completion w body_obj =
     and_then (py_in w ''response'' body_obj) (\<lambda>has_response.
       if has_response then
         and_then (py_getitem w body_obj ''response'') (\<lambda>strands_response.
           case strands_response of
             JObj kvs \<Rightarrow>
               (case map_of kvs ''content'' of
                  Some (JArr content) \<Rightarrow> add_content (response_content_item w) [] content
                | _ \<Rightarrow>
                    (case map_of kvs ''message'' of
                       Some message_content \<Rightarrow> Inr (py_str message_content)
                     | None \<Rightarrow> Inr (json_dumps strands_response)))
           | JStr s \<Rightarrow> Inr s
           | _ \<Rightarrow> Inr (py_str strands_response))
       else
         and_then (py_in w ''content'' body_obj) (\<lambda>has_content.
         and_then (if has_content
                   then and_then (py_getitem w body_obj ''content'') (\<lambda>c. Inr (Some c))
                   else Inr None) (\<lambda>content.
           case content of
             Some (JArr content_items) \<Rightarrow> add_content (body_content_item w) [] content_items
           | _ \<Rightarrow>
               and_then (py_in w ''message'' body_obj) (\<lambda>has_message.
                 if has_message then
                   and_then (py_getitem w body_obj ''message'') (\<lambda>message_content.
                     Inr (py_str message_content))
                 else Inr (json_dumps body_obj)))))"

definition strands_init_frame :: json where
  "strands_init_frame =
     JObj [(''type'', JStr ''trace''),
           (''content'', JObj [(''trace'', JObj [(''orchestrationTrace'',
              JObj [(''invocationInput'',
                JObj [(''invocationType'', JStr ''STRANDS_AGENT''),
                      (''text'', JStr ''Initializing Strands Safety Supervisor Agent'')])])])]),
           (''agentFramework'', JStr ''StrandsSDK'')]"

definition strands_final_frame :: "string \<Rightarrow> string \<Rightarrow> string \<Rightarrow> json" where
  "strands_final_frame request_id cleaned_completion now =
     JObj [(''type'', JStr ''final''), (''requestId'', JStr request_id),
           (''status'', JStr ''COMPLETED''),
           (''safetyCheckResponse'', JStr cleaned_completion),
           (''safetyCheckPerformedAt'', JStr now),
           (''agentFramework'', JStr ''StrandsSDK'')]"

definition strands_error_frame :: "string \<Rightarrow> json" where
  "strands_error_frame error_msg =
     JObj [(''type'', JStr ''error''), (''safetyCheckResponse'', JStr error_msg),
           (''agentFramework'', JStr ''StrandsSDK'')]"

definition invoke_strands_agent ::
  "world \<Rightarrow> string \<Rightarrow> json \<Rightarrow> api_client \<Rightarrow> string \<Rightarrow> string action" where
  "invoke_strands_agent w payload session_id api_gateway_management connection_id =
     try_except
       (seq (send_to_client w api_gateway_management connection_id strands_init_frame) (\<lambda>_.
        let modified_payload =
              JObj [(''inputText'', JStr payload), (''sessionId'', session_id),
                    (''connectionId'', JStr connection_id),
                    (''apiGatewayEndpoint'', JStr (endpoint_url api_gateway_management)),
                    (''enableStreaming'', JBool True)]
        in
        seq (call_lambda_invoke w (STRANDS_AGENT_ID w) (json_dumps modified_payload))
          (\<lambda>payload_text.
        seq (case json_loads w payload_text of
               None \<Rightarrow> throw (builtin_error w JSONDecodeError (JStr payload_text))
             | Some v \<Rightarrow> ret v) (\<lambda>response_payload.
        seq (lift (py_in w ''error'' response_payload)) (\<lambda>has_error.
        if has_error then
          seq (lift (py_getitem w response_payload ''error'')) (\<lambda>err.
          throw (Exn RaisedException (py_str err)))
        else
        seq (lift (py_get w response_payload ''statusCode'' JNull)) (\<lambda>status.
        if status = JInt 200 then
          seq (lift (py_getitem w response_payload ''body'')) (\<lambda>body_text.
          seq (case body_text of
                 JStr t \<Rightarrow>
                   (case json_loads w t of
                      None \<Rightarrow> throw (builtin_error w JSONDecodeError body_text)
                    | Some v \<Rightarrow> ret v)
               | _ \<Rightarrow> throw (builtin_error w TypeError body_text)) (\<lambda>body_obj.
          seq (lift (extract_completion w body_obj)) (\<lambda>completion.
          let cleaned_completion = clean_html_response completion in
          seq (read_time_time w) (\<lambda>t.
          let request_id = ''ws-strands-'' @ connection_id @ ''-'' @ dec_int t in
          seq (read_now_isoformat w) (\<lambda>now.
          seq (send_to_client w api_gateway_management connection_id
                 (strands_final_frame request_id cleaned_completion now)) (\<lambda>_.
          ret cleaned_completion))))))
        else
          seq (lift (py_get w response_payload ''body'' (JStr ''Unknown error''))) (\<lambda>b.
          let error_msg = ''Strands agent error: '' @ py_str b in
          seq (send_to_client w api_gateway_management connection_id
                 (strands_error_frame error_msg)) (\<lambda>_.
          ret error_msg))))))))
       (\<lambda>e.
          let error_msg = ''Error invoking Strands agent: '' @ str_exn e
          in seq (send_to_client w api_gateway_management connection_id
                    (strands_error_frame error_msg)) (\<lambda>_.
             ret error_msg))"

section \<open>Token verification\<close>

text \<open>
  \<^verbatim>\<open>verify_token\<close>. The key set (\<^verbatim>\<open>requests.get\<close>, \<^verbatim>\<open>raise_for_status\<close> and
  \<^verbatim>\<open>response.json()\<close>), \<^verbatim>\<open>jwt.get_unverified_header\<close> and \<^verbatim>\<open>jwt.decode\<close> are calls of the
  environment; both handlers of the function re-raise. Iterating over \<open>keys\<close> when it is
  not a list raises on the first element (a key or a character has no \<^verbatim>\<open>get\<close>) or on
  the value itself.
\<close>

fun matching_keys :: "world \<Rightarrow> json \<Rightarrow> json list \<Rightarrow> exn + json list" where
  "matching_keys w header [] = Inr []"
| "matching_keys w header (k # ks) =
     and_then (py_get w k ''kid'' JNull) (\<lambda>kid.
     and_then (py_get w header ''kid'' JNull) (\<lambda>hkid.
     and_then (matching_keys w header ks) (\<lambda>rest.
       Inr (if py_eq kid hkid then k # rest else rest))))"

definition verify_token :: "world \<Rightarrow> json \<Rightarrow> exn + json" where
  "verify_token w token =
     and_then (jwks w) (\<lambda>key_set.
     and_then (py_get w key_set ''keys'' (JArr [])) (\<lambda>keys.
     if \<not> truthy keys then Inl (Exn ValueError ''No keys found in JWKS response'')
     else
     and_then (jwt_get_unverified_header w token) (\<lambda>header.
     and_then (if \<not> truthy header then Inr True
               else and_then (py_in w ''kid'' header) (\<lambda>b. Inr (\<not> b))) (\<lambda>bad_header.
     if bad_header then Inl (Exn ValueError ''Invalid token header'')
     else
     and_then (case keys of
                 JArr ks \<Rightarrow> matching_keys w header ks
               | JObj ((k, v) # kvs) \<Rightarrow> Inl (builtin_error w AttributeError (JStr k))
               | JStr (c # cs) \<Rightarrow> Inl (builtin_error w AttributeError (JStr [c]))
               | _ \<Rightarrow> Inl (builtin_error w TypeError keys)) (\<lambda>matching.
     case matching of
       [] \<Rightarrow>
         and_then (py_get w header ''kid'' JNull) (\<lambda>hkid.
           Inl (Exn ValueError (''No matching key found for kid: '' @ py_str hkid)))
     | key # _ \<Rightarrow> jwt_decode w token key)))))"

section \<open>Dispatcher\<close>

text \<open>
  The persistence step of \<^verbatim>\<open>handle_message\<close> (its inner \<^verbatim>\<open>try\<close>): the work-order table is
  updated when it is configured and the message has \<^verbatim>\<open>workOrderDetails\<close> with a truthy
  \<^verbatim>\<open>work_order_id\<close>; any exception is logged and dropped.
\<close>

definition store_safety_check ::
  "world \<Rightarrow> json \<Rightarrow> string \<Rightarrow> string \<Rightarrow> unit action" where
  "store_safety_check w event_body completion current_time =
     try_except
       (seq (lift (if opt_truthy (WORK_ORDERS_TABLE_NAME w)
                   then py_in w ''workOrderDetails'' event_body else Inr False)) (\<lambda>present.
        if present then
          seq (lift (py_getitem w event_body ''workOrderDetails'')) (\<lambda>details.
          seq (lift (py_get w details ''work_order_id'' JNull)) (\<lambda>wo_id.
          if truthy wo_id then
            (let processed_response = extract_html_content completion
             in update_item w \<lparr>work_order_id = wo_id,
                                safetyCheckResponse = processed_response,
                                safetyCheckPerformedAt = current_time\<rparr>)
          else ret ()))
        else ret ()))
       (\<lambda>table_error. ret ())"

text \<open>
  The handler of the outer \<^verbatim>\<open>try\<close> of \<^verbatim>\<open>handle_message\<close>. It reads the locals
  \<open>event_body\<close> and \<open>request_id\<close>, which are bound only if the body of the \<^verbatim>\<open>try\<close> got
  far enough: \<open>None\<close> is an unbound local, and reading \<open>request_id\<close> unbound raises.
\<close>

definition error_frame :: "string \<Rightarrow> exn \<Rightarrow> json \<Rightarrow> json" where
  "error_frame request_id e error_framework =
     JObj [(''type'', JStr ''error''), (''requestId'', JStr request_id),
           (''status'', JStr ''COMPLETED''),
           (''safetyCheckResponse'', JStr (''Error in performing safety check::'' @ str_exn e)),
           (''agentFramework'', error_framework)]"

definition handle_message_except ::
  "world \<Rightarrow> api_client \<Rightarrow> string \<Rightarrow> json option \<Rightarrow> string option \<Rightarrow> exn \<Rightarrow> response action" where
  "handle_message_except w api_gateway_management connection_id event_body request_id e =
     seq (lift (case event_body of
                  Some eb \<Rightarrow> py_get w eb ''agentFramework'' (JStr ''BedrockAgent'')
                | None \<Rightarrow> Inr (JStr ''BedrockAgent''))) (\<lambda>error_framework.
     case request_id of
       None \<Rightarrow> throw (builtin_error w UnboundLocalError (JStr ''request_id''))
     | Some rid \<Rightarrow>
         seq (send_to_client w api_gateway_management connection_id
                (error_frame rid e error_framework)) (\<lambda>_.
         ret \<lparr>statusCode = 500, body = ''Failed to process message: '' @ str_exn e\<rparr>))"

definition final_frame :: "string \<Rightarrow> string \<Rightarrow> string \<Rightarrow> json \<Rightarrow> json" where
  "final_frame request_id completion current_time requested_framework =
     JObj [(''type'', JStr ''final''), (''requestId'', JStr request_id),
           (''status'', JStr ''COMPLETED''), (''safetyCheckResponse'', JStr completion),
           (''safetyCheckPerformedAt'', JStr current_time),
           (''agentFramework'', requested_framework)]"

text \<open>
  The part of \<^verbatim>\<open>handle_message\<close> that runs once \<open>event_body\<close>, \<open>session_id\<close> and
  \<open>request_id\<close> are bound: payload, choice of backend, persistence, final frame.
\<close>

definition process_request ::
  "world \<Rightarrow> api_client \<Rightarrow> string \<Rightarrow> json \<Rightarrow> json \<Rightarrow> response action" where
  "process_request w api_gateway_management connection_id event_body session_id =
     (let payload = (case py_getitem w event_body ''workOrderDetails'' of
                       Inr workOrderDetails \<Rightarrow> json_dumps workOrderDetails
                     | Inl ex \<Rightarrow> json_dumps event_body)
      in
      seq (lift (py_get w event_body ''agentFramework'' (JStr ''BedrockAgent'')))
        (\<lambda>requested_framework.
      seq (if requested_framework = JStr ''StrandsSDK''
           then invoke_strands_agent w payload session_id api_gateway_management connection_id
           else invoke_bedrock_agent w payload session_id api_gateway_management connection_id)
        (\<lambda>completion.
      seq (read_now_isoformat w) (\<lambda>current_time.
      seq (store_safety_check w event_body completion current_time) (\<lambda>_.
      seq (read_time_time w) (\<lambda>t.
      let request_id = ''ws-'' @ connection_id @ ''-'' @ dec_int t in
      seq (send_to_client w api_gateway_management connection_id
             (final_frame request_id completion current_time requested_framework)) (\<lambda>_.
      ret \<lparr>statusCode = 200, body = ''Message sent''\<rparr>)))))))"

definition handle_message :: "world \<Rightarrow> api_client \<Rightarrow> string \<Rightarrow> event \<Rightarrow> response action" where
  "handle_message w api_gateway_management connection_id event =
     (case (case raw_body event of
              None \<Rightarrow> Inl (Exn KeyError (repr_str ''body''))
            | Some b \<Rightarrow>
                (case json_loads w b of
                   None \<Rightarrow> Inl (builtin_error w JSONDecodeError (JStr b))
                 | Some v \<Rightarrow> Inr v)) of
        Inl e \<Rightarrow> handle_message_except w api_gateway_management connection_id None None e
      | Inr event_body \<Rightarrow>
          seq (read_uuid4 w) (\<lambda>fresh.
          case py_get w event_body ''session_id'' (JStr fresh) of
            Inl e \<Rightarrow>
              handle_message_except w api_gateway_management connection_id
                (Some event_body) None e
          | Inr session_id \<Rightarrow>
              seq (read_uuid4 w) (\<lambda>request_id.
              try_except
                (process_request w api_gateway_management connection_id event_body session_id)
                (handle_message_except w api_gateway_management connection_id
                   (Some event_body) (Some request_id)))))"

text \<open>
  \<^verbatim>\<open>lambda_handler\<close>: \<open>route\<close> is the body of its \<^verbatim>\<open>try\<close>, and \<open>lambda_handler\<close> adds the
  handler that turns any exception into a 500 response.
\<close>

definition route :: "world \<Rightarrow> event \<Rightarrow> response action" where
  "route w event =
     (case requestContext event of
        None \<Rightarrow> ret \<lparr>statusCode = 400, body = ''Invalid WebSocket event structure''\<rparr>
      | Some request_context \<Rightarrow>
          (case (routeKey request_context, connectionId request_context) of
             (Some route_key, Some connection_id) \<Rightarrow>
               if route_key = [] \<or> connection_id = [] then
                 ret \<lparr>statusCode = 400, body = ''Missing required WebSocket fields''\<rparr>
               else if route_key = ''$connect'' then handle_connect w connection_id
               else if route_key = ''$disconnect'' then handle_disconnect w connection_id
               else if route_key = ''$default'' then
                 (if \<not> opt_truthy (raw_body event) then
                    ret \<lparr>statusCode = 400, body = ''Missing request body''\<rparr>
                  else
                    case json_loads w (the (raw_body event)) of
                      None \<Rightarrow> ret \<lparr>statusCode = 400, body = ''Invalid JSON in request body''\<rparr>
                    | Some message \<Rightarrow>
                        seq (lift (py_get w message ''messageType'' JNull)) (\<lambda>message_type.
                        if message_type = JStr ''heartbeat'' then
                          ret \<lparr>statusCode = 200,
                               body = json_dumps (JObj [(''message'',
                                        JStr ''Heartbeat received, no action taken'')])\<rparr>
                        else if opt_truthy (domainName request_context)
                                \<and> opt_truthy (stage request_context) then
                          (let api_client = \<lparr>endpoint_url = ''https://''
                                 @ the (domainName request_context) @ ''/''
                                 @ the (stage request_context)\<rparr>
                           in
                           seq (lift (py_get w message ''token'' JNull)) (\<lambda>token.
                           if \<not> truthy token then
                             ret \<lparr>statusCode = 403, body = ''Token is required''\<rparr>
                           else
                             try_except
                               (seq (lift (verify_token w token)) (\<lambda>decoded.
                                seq (lift (py_get w decoded ''email'' (JStr ''unknown'')))
                                  (\<lambda>user_email.
                                handle_message w api_client connection_id event)))
                               (\<lambda>e. ret \<lparr>statusCode = 403, body = ''Invalid Token''\<rparr>)))
                        else
                          ret \<lparr>statusCode = 500, body = ''Missing API Gateway configuration''\<rparr>))
               else ret \<lparr>statusCode = 400, body = ''Unsupported route: '' @ route_key\<rparr>
           | _ \<Rightarrow> ret \<lparr>statusCode = 400, body = ''Missing required WebSocket fields''\<rparr>))"

definition lambda_handler :: "world \<Rightarrow> event \<Rightarrow> response action" where
  "lambda_handler w event =
     try_except (route w event)
       (\<lambda>e. ret \<lparr>statusCode = 500, body = ''Internal server error: '' @ str_exn e\<rparr>)"

section \<open>Observing a run\<close>

text \<open>
  The frame inside a posted envelope, its \<^verbatim>\<open>type\<close>, and the frames a step adds to
  \<open>posted\<close>.
\<close>

definition frame_message :: "string \<times> json \<Rightarrow> json" where
  "frame_message p =
     (case snd p of
        JObj kvs \<Rightarrow> (case map_of kvs ''message'' of Some m \<Rightarrow> m | None \<Rightarrow> JNull)
      | _ \<Rightarrow> JNull)"

definition field :: "string \<Rightarrow> json \<Rightarrow> json option" where
  "field k m = (case m of JObj kvs \<Rightarrow> map_of kvs k | _ \<Rightarrow> None)"

definition frames :: "state \<Rightarrow> json list" where
  "frames s = map frame_message (posted s)"


definition is_terminal :: "json \<Rightarrow> bool" where
  "is_terminal m = (field ''type'' m = Some (JStr ''final'') \<or> field ''type'' m = Some (JStr ''error''))"

text \<open>The text a stream item adds to the completion, and the trace it carries.\<close>

definition chunk_text :: "event_item \<Rightarrow> string" where
  "chunk_text event_item =
     (case chunk event_item of
        Some ch \<Rightarrow> (case bytes ch of Some (Decodable t) \<Rightarrow> t | _ \<Rightarrow> [])
      | None \<Rightarrow> [])"

definition decodable :: "event_item \<Rightarrow> bool" where
  "decodable event_item =
     (case chunk event_item of
        Some ch \<Rightarrow> (case bytes ch of Some Undecodable \<Rightarrow> False | _ \<Rightarrow> True)
      | None \<Rightarrow> True)"

definition traces :: "event_item list \<Rightarrow> json list" where
  "traces event_items = concat (map (\<lambda>i. case trace i of Some tr \<Rightarrow> [tr] | None \<Rightarrow> []) event_items)"

definition text_items :: "string list \<Rightarrow> json list" where
  "text_items ts = map (\<lambda>t. JObj [(''text'', JStr t)]) ts"

definition has_content_list :: "(string \<times> json) list \<Rightarrow> bool" where
  "has_content_list kvs = (case map_of kvs ''content'' of Some (JArr xs) \<Rightarrow> True | _ \<Rightarrow> False)"

section \<open>An example environment\<close>

text \<open>
  A deployment with both backends and the work-order table configured, a clock that
  advances with every reading, and services that all succeed. \<open>example_loads\<close> is
  \<^verbatim>\<open>json.loads\<close> on the texts that occur in the examples.
\<close>

definition body_bedrock :: string where
  \<open>body_bedrock = ''{"token": "good", "workOrderDetails": {"work_order_id": "WO1", "location_name": "Site1"}}''\<close>

definition body_strands :: string where
  \<open>body_strands = ''{"token": "good", "agentFramework": "StrandsSDK", "workOrderDetails": {"work_order_id": "WO1"}}''\<close>

definition body_other :: string where
  \<open>body_other = ''{"token": "good", "agentFramework": "Other"}''\<close>

definition body_no_token :: string where
  \<open>body_no_token = ''{"workOrderDetails": {"work_order_id": "WO1"}}''\<close>

definition body_bad_token :: string where
  \<open>body_bad_token = ''{"token": "forged"}''\<close>

definition body_list :: string where
  \<open>body_list = ''[]''\<close>

definition strands_payload :: string where
  \<open>strands_payload = ''{"statusCode": 200, "body": "{...}"}''\<close>

definition strands_body :: string where
  \<open>strands_body = ''{...}''\<close>

definition example_loads :: "string \<Rightarrow> json option" where
  "example_loads t =
     (if t = body_bedrock then
        Some (JObj [(''token'', JStr ''good''),
                    (''workOrderDetails'', JObj [(''work_order_id'', JStr ''WO1''),
                                                 (''location_name'', JStr ''Site1'')])])
      else if t = body_strands then
        Some (JObj [(''token'', JStr ''good''), (''agentFramework'', JStr ''StrandsSDK''),
                    (''workOrderDetails'', JObj [(''work_order_id'', JStr ''WO1'')])])
      else if t = body_other then
        Some (JObj [(''token'', JStr ''good''), (''agentFramework'', JStr ''Other'')])
      else if t = body_no_token then
        Some (JObj [(''workOrderDetails'', JObj [(''work_order_id'', JStr ''WO1'')])])
      else if t = body_bad_token then Some (JObj [(''token'', JStr ''forged'')])
      else if t = body_list then Some (JArr [])
      else if t = strands_payload then
        Some (JObj [(''statusCode'', JInt 200), (''body'', JStr strands_body)])
      else if t = strands_body then
        Some (JObj [(''sessionId'', JStr ''u0''),
                    (''response'', JObj [(''role'', JStr ''assistant''),
                       (''content'', JArr [JObj [(''text'', JStr ''<div>Report</div>'')]])]),
                    (''framework'', JStr ''StrandsSDK'')])
      else None)"

definition example_stream :: event_stream where
  "example_stream =
     \<lparr>items = [\<lparr>chunk = Some \<lparr>bytes = Some (Decodable ''<div>'')\<rparr>, trace = None\<rparr>,
               \<lparr>chunk = None, trace = Some (JObj [(''orchestrationTrace'', JStr ''step'')])\<rparr>,
               \<lparr>chunk = Some \<lparr>bytes = Some (Decodable ''Report</div>'')\<rparr>, trace = None\<rparr>],
      failure = None\<rparr>"

definition example_world :: world where
  "example_world =
     \<lparr>BEDROCK_AGENT_ID = Some ''AGENT'',
      BEDROCK_AGENT_ALIAS_ID = Some ''ALIAS'',
      STRANDS_AGENT_ID = Some ''supervisor'',
      WORK_ORDERS_TABLE_NAME = Some ''WorkOrders'',
      json_loads = example_loads,
      builtin_text = (\<lambda>k x. ''error''),
      now_isoformat = (\<lambda>n. ''T'' @ dec_nat n),
      now_str = (\<lambda>n. ''t'' @ dec_nat n),
      time_time = (\<lambda>n. int n),
      uuid4 = (\<lambda>n. ''u'' @ dec_nat n),
      post_to_connection = (\<lambda>n. None),
      dynamodb = (\<lambda>n. None),
      lambda_invoke = (\<lambda>function_name payload. Inr strands_payload),
      invoke_agent = (\<lambda>input_text agent_id agent_alias_id session_id. Inr example_stream),
      jwks = Inr (JObj [(''keys'', JArr [JObj [(''kid'', JStr ''k1'')]])]),
      jwt_get_unverified_header = (\<lambda>token. Inr (JObj [(''kid'', JStr ''k1'')])),
      jwt_decode = (\<lambda>token key. if token = JStr ''good''
                      then Inr (JObj [(''email'', JStr ''worker@example.com'')])
                      else Inl (Exn ValueError ''Signature verification failed''))\<rparr>"

text \<open>The same deployment when the client has gone away, and when DynamoDB is failing.\<close>

definition gone_world :: world where
  "gone_world =
     example_world\<lparr>post_to_connection := (\<lambda>n. Some (Exn GoneException ''GoneException''))\<rparr>"

definition failing_ddb_world :: world where
  "failing_ddb_world =
     example_world\<lparr>dynamodb := (\<lambda>n. Some (Exn ServiceError ''ProvisionedThroughputExceeded''))\<rparr>"

definition example_api :: api_client where
  "example_api = \<lparr>endpoint_url = ''https://example.com/prod''\<rparr>"

definition example_event :: "string \<Rightarrow> string \<Rightarrow> event" where
  "example_event route_key body_text =
     \<lparr>requestContext = Some \<lparr>routeKey = Some route_key, connectionId = Some ''C1'',
                              domainName = Some ''example.com'', stage = Some ''prod''\<rparr>,
      raw_body = Some body_text\<rparr>"

definition initial_state :: state where
  "initial_state =
     \<lparr>clock = 0, uuids = 0, ddb_calls = 0, posted = [], backend_calls = [],
      ws_connection_table = Map.empty, work_orders = []\<rparr>"

definition connected_state :: state where
  "connected_state =
     initial_state\<lparr>ws_connection_table := [''C1'' \<mapsto> \<lparr>ttl = 600, timestamp = ''t0''\<rparr>]\<rparr>"

section \<open>Reasoning about runs\<close>

text \<open>
  The values a request works with: the payload handed to the backend, the session
  identifier, the requested framework and the strategy chosen for it.
\<close>

definition request_payload :: "world \<Rightarrow> json \<Rightarrow> string" where
  "request_payload w eb =
     (case py_getitem w eb ''workOrderDetails'' of
        Inr workOrderDetails \<Rightarrow> json_dumps workOrderDetails
      | Inl ex \<Rightarrow> json_dumps eb)"

definition strategy ::
  "world \<Rightarrow> json \<Rightarrow> string \<Rightarrow> json \<Rightarrow> api_client \<Rightarrow> string \<Rightarrow> string action" where
  "strategy w fw payload sid api c =
     (if fw = JStr ''StrandsSDK'' then invoke_strands_agent w payload sid api c
      else invoke_bedrock_agent w payload sid api c)"

definition session_of :: "world \<Rightarrow> (string \<times> json) list \<Rightarrow> state \<Rightarrow> json" where
  "session_of w kvs s =
     (case map_of kvs ''session_id'' of Some v \<Rightarrow> v | None \<Rightarrow> JStr (uuid4 w (uuids s)))"

definition requested :: "(string \<times> json) list \<Rightarrow> json" where
  "requested kvs =
     (case map_of kvs ''agentFramework'' of Some v \<Rightarrow> v | None \<Rightarrow> JStr ''BedrockAgent'')"







text \<open>
  \<open>emits obs m N E\<close>: from every state, the step \<open>m\<close> extends the observation \<open>obs\<close> (a
  list kept in the state, such as the frames) by some \<open>fs\<close>; if it returns \<open>x\<close> then
  \<open>N x fs\<close>, and if it raises \<open>e\<close> then \<open>E e fs\<close>. \<open>keeps obs m\<close>: the step leaves the
  observation as it was.
\<close>

definition emits ::
  "(state \<Rightarrow> 'o list) \<Rightarrow> 'a action \<Rightarrow> ('a \<Rightarrow> 'o list \<Rightarrow> bool) \<Rightarrow> (exn \<Rightarrow> 'o list \<Rightarrow> bool) \<Rightarrow> bool" where
  "emits obs m N E =
     (\<forall>s. \<exists>fs. obs (snd (m s)) = obs s @ fs \<and>
        (case fst (m s) of Inr x \<Rightarrow> N x fs | Inl e \<Rightarrow> E e fs))"

definition keeps :: "(state \<Rightarrow> 'o) \<Rightarrow> 'a action \<Rightarrow> bool" where
  "keeps obs m = (\<forall>s. obs (snd (m s)) = obs s)"

definition bedrock_frames :: "json list \<Rightarrow> bool" where
  "bedrock_frames fs =
     (\<exists>trs t. fs = map trace_frame trs @ t \<and>
        (t = [] \<or> (\<exists>m. t = [m] \<and> field ''type'' m = Some (JStr ''error''))))"

section \<open>Reasoning about the cleaner\<close>

text \<open>
  The shape of a text after \<^verbatim>\<open>' '.join(text.split())\<close>: \<open>spaced\<close> says that the only
  whitespace is the blank and that no blank is followed by whitespace; a \<open>tidy\<close> text
  moreover neither starts nor ends with whitespace. \<open>words_ok\<close> describes the words that
  \<^verbatim>\<open>split\<close> returns.
\<close>

fun spaced :: "string \<Rightarrow> bool" where
  "spaced [] = True"
| "spaced [c] = (is_space c \<longrightarrow> c = CHR '' '')"
| "spaced (c # d # s) = ((is_space c \<longrightarrow> c = CHR '' '' \<and> \<not> is_space d) \<and> spaced (d # s))"

definition tidy :: "string \<Rightarrow> bool" where
  "tidy s = (spaced s \<and> (s \<noteq> [] \<longrightarrow> \<not> is_space (hd s) \<and> \<not> is_space (last s)))"

definition words_ok :: "string list \<Rightarrow> bool" where
  "words_ok ws = (\<forall>x\<in>set ws. x \<noteq> [] \<and> (\<forall>c\<in>set x. \<not> is_space c))"

text \<open>
  \<open>absent p s\<close>: the pattern occurs nowhere in the text (\<^verbatim>\<open>s.find(p) == -1\<close>). \<open>earliest\<close>
  is one round of the loop over \<^verbatim>\<open>html_start_patterns\<close>. A text is \<open>anchored\<close> when it
  starts with one of the patterns or contains none of them: the loop then leaves it alone.
\<close>

definition absent :: "string \<Rightarrow> string \<Rightarrow> bool" where
  "absent p s = (\<forall>i. \<not> startswith (drop i s) p)"

definition earliest :: "string \<Rightarrow> string \<Rightarrow> nat option \<Rightarrow> nat option" where
  "earliest text pattern start_index =
     (case str_find text pattern of
        None \<Rightarrow> start_index
      | Some index \<Rightarrow>
          (case start_index of
             None \<Rightarrow> Some index
           | Some si \<Rightarrow> if index < si then Some index else Some si))"

definition anchored :: "string \<Rightarrow> bool" where
  "anchored s = ((\<exists>p\<in>set html_start_patterns. startswith s p)
                 \<or> (\<forall>p\<in>set html_start_patterns. absent p s))"

text \<open>
  The three phases of \<^verbatim>\<open>clean_html_response\<close> on a non-empty text: the replacements, the
  whitespace normalisation and the stripping of brackets and quotes (\<open>normalise\<close>); the
  cut at the first start pattern, the removal of the text before the first tag and the
  wrapping in \<^verbatim>\<open><div>\<close> (\<open>anchor\<close>); the cut after the last closing tag and the final
  \<^verbatim>\<open>strip\<close> (\<open>truncate\<close>).
\<close>

definition normalise :: "string \<Rightarrow> string" where
  "normalise raw_response =
     (let response_text = str_replace raw_response [CHR 0x5C, CHR ''n''] [];
          response_text = str_replace response_text [CHR 0x0A] '' '';
          response_text = str_replace response_text [CHR 0x0D] [];
          response_text = str_replace response_text [CHR 0x09] '' '';
          response_text = str_join '' '' (str_split response_text);
          response_text = rstrip_chars response_text ''}])''
      in strip_chars response_text [CHR 0x22, CHR 0x27])"

definition anchor :: "string \<Rightarrow> string" where
  "anchor response_text =
     (let response_text =
            (case find_start_index response_text of
               Some start_index \<Rightarrow>
                 if start_index > 0 then drop start_index response_text else response_text
             | None \<Rightarrow> response_text);
          response_text =
            (if CHR ''<'' \<in> set response_text
             then dropWhile (\<lambda>c. c \<noteq> CHR ''<'') response_text else response_text)
      in if response_text \<noteq> [] \<and> \<not> startswith response_text ''<''
         then ''<div>'' @ response_text @ ''</div>'' else response_text)"

definition truncate :: "string \<Rightarrow> string" where
  "truncate response_text =
     str_strip (case last_tag_match response_text of
                  Some e \<Rightarrow> take e response_text
                | None \<Rightarrow> response_text)"

section \<open>Lemmas\<close>

subsection \<open>Sequencing\<close>

lemma seq_ret [simp]: "seq (ret x) f = f x"
  by (rule ext) (simp add: seq_def ret_def)

lemma seq_throw [simp]: "seq (throw e) f = throw e"
  by (rule ext) (simp add: seq_def throw_def)

lemma seq_lift_Inr [simp]: "seq (lift (Inr x)) f = f x"
  by (rule ext) (simp add: seq_def lift_def)

lemma seq_lift_Inl [simp]: "seq (lift (Inl e)) f = throw e"
  by (rule ext) (simp add: seq_def lift_def throw_def)

lemma try_except_ret [simp]: "try_except (ret x) h = ret x"
  by (rule ext) (simp add: try_except_def ret_def)

lemma try_except_throw [simp]: "try_except (throw e) h = h e"
  by (rule ext) (simp add: try_except_def throw_def)



lemma emits_ret: "N x [] \<Longrightarrow> emits obs (ret x) N E"
  by (simp add: emits_def ret_def)

lemma emits_throw: "E e [] \<Longrightarrow> emits obs (throw e) N E"
  by (simp add: emits_def throw_def)

lemma emits_lift: "(case r of Inr x \<Rightarrow> N x [] | Inl e \<Rightarrow> E e []) \<Longrightarrow> emits obs (lift r) N E"
  by (simp add: emits_def lift_def)

lemma emits_seq:
  assumes "emits obs m (\<lambda>x fs. emits obs (f x) (\<lambda>y gs. N y (fs @ gs)) (\<lambda>e gs. E e (fs @ gs))) E"
  shows "emits obs (seq m f) N E"
  unfolding emits_def
proof
  fix s
  from assms obtain fs where fs: "obs (snd (m s)) = obs s @ fs"
    "case fst (m s) of Inr x \<Rightarrow> emits obs (f x) (\<lambda>y gs. N y (fs @ gs)) (\<lambda>e gs. E e (fs @ gs))
       | Inl e \<Rightarrow> E e fs"
    unfolding emits_def by blast
  show "\<exists>fs. obs (snd (seq m f s)) = obs s @ fs \<and>
          (case fst (seq m f s) of Inr x \<Rightarrow> N x fs | Inl e \<Rightarrow> E e fs)"
  proof (cases "m s")
    case (Pair r s1)
    show ?thesis
    proof (cases r)
      case (Inl e)
      with Pair fs show ?thesis by (auto simp: seq_def)
    next
      case (Inr x)
      with Pair fs have "emits obs (f x) (\<lambda>y gs. N y (fs @ gs)) (\<lambda>e gs. E e (fs @ gs))" by simp
      then obtain gs where "obs (snd (f x s1)) = obs s1 @ gs"
        "case fst (f x s1) of Inr y \<Rightarrow> N y (fs @ gs) | Inl e \<Rightarrow> E e (fs @ gs)"
        unfolding emits_def by blast
      with Pair Inr fs show ?thesis by (auto simp: seq_def)
    qed
  qed
qed

lemma emits_try_except:
  assumes "emits obs m N (\<lambda>e fs. emits obs (h e) (\<lambda>y gs. N y (fs @ gs)) (\<lambda>e gs. E e (fs @ gs)))"
  shows "emits obs (try_except m h) N E"
  unfolding emits_def
proof
  fix s
  from assms obtain fs where fs: "obs (snd (m s)) = obs s @ fs"
    "case fst (m s) of Inr x \<Rightarrow> N x fs
       | Inl e \<Rightarrow> emits obs (h e) (\<lambda>y gs. N y (fs @ gs)) (\<lambda>e gs. E e (fs @ gs))"
    unfolding emits_def by blast
  show "\<exists>fs. obs (snd (try_except m h s)) = obs s @ fs \<and>
          (case fst (try_except m h s) of Inr x \<Rightarrow> N x fs | Inl e \<Rightarrow> E e fs)"
  proof (cases "m s")
    case (Pair r s1)
    show ?thesis
    proof (cases r)
      case (Inr x)
      with Pair fs show ?thesis by (auto simp: try_except_def)
    next
      case (Inl e)
      with Pair fs have "emits obs (h e) (\<lambda>y gs. N y (fs @ gs)) (\<lambda>e gs. E e (fs @ gs))" by simp
      then obtain gs where "obs (snd (h e s1)) = obs s1 @ gs"
        "case fst (h e s1) of Inr y \<Rightarrow> N y (fs @ gs) | Inl e \<Rightarrow> E e (fs @ gs)"
        unfolding emits_def by blast
      with Pair Inl fs show ?thesis by (auto simp: try_except_def)
    qed
  qed
qed

lemma emits_weaken:
  assumes "emits obs m N' E'" "\<And>x fs. N' x fs \<Longrightarrow> N x fs" "\<And>e fs. E' e fs \<Longrightarrow> E e fs"
  shows "emits obs m N E"
  using assms unfolding emits_def by (metis (mono_tags, lifting) sum.case_eq_if)


lemma emits_if:
  "(b \<Longrightarrow> emits obs m1 N E) \<Longrightarrow> (\<not> b \<Longrightarrow> emits obs m2 N E) \<Longrightarrow> emits obs (if b then m1 else m2) N E"
  by simp

lemma send_to_client_eq:
  "send_to_client w api c m s =
     (Inr (),
      let s1 = s\<lparr>clock := Suc (clock s),
                 posted := posted s @ [(c, envelope m c (now_str w (clock s)))]\<rparr>
      in case post_to_connection w (length (posted s)) of
           None \<Rightarrow> s1
         | Some e \<Rightarrow>
             if kind e = GoneException then
               (case dynamodb w (ddb_calls s) of
                  None \<Rightarrow> s1\<lparr>ddb_calls := Suc (ddb_calls s),
                             ws_connection_table := (ws_connection_table s)(c := None)\<rparr>
                | Some e' \<Rightarrow> s1\<lparr>ddb_calls := Suc (ddb_calls s)\<rparr>)
             else s1)"
  by (simp add: send_to_client_def post_frame_def try_except_def seq_def read_now_str_def
      delete_item_def ddb_call_def ret_def Let_def split: option.splits)

lemma frame_message_envelope [simp]: "frame_message (c, envelope m c' t) = m"
  by (simp add: frame_message_def envelope_def)

lemma emits_send_to_client: "N () [m] \<Longrightarrow> emits frames (send_to_client w api c m) N E"
  by (simp add: emits_def send_to_client_eq Let_def frames_def split: option.splits)

lemma emits_read_time_time: "(\<And>t. N t []) \<Longrightarrow> emits frames (read_time_time w) N E"
  by (simp add: emits_def read_time_time_def frames_def)

lemma emits_read_now_isoformat: "(\<And>t. N t []) \<Longrightarrow> emits frames (read_now_isoformat w) N E"
  by (simp add: emits_def read_now_isoformat_def frames_def)

lemma emits_read_uuid4: "(\<And>t. N t []) \<Longrightarrow> emits frames (read_uuid4 w) N E"
  by (simp add: emits_def read_uuid4_def frames_def)

lemma emits_call_lambda_invoke:
  "(\<And>x. N x []) \<Longrightarrow> (\<And>e. E e []) \<Longrightarrow> emits frames (call_lambda_invoke w fn p) N E"
  by (simp add: emits_def call_lambda_invoke_def frames_def split: sum.splits)

lemma emits_call_invoke_agent:
  "(\<And>x. N x []) \<Longrightarrow> (\<And>e. E e []) \<Longrightarrow> emits frames (call_invoke_agent w a b c d) N E"
  by (simp add: emits_def call_invoke_agent_def frames_def split: sum.splits)

lemma emits_lift_any:
  "(\<And>x. N x []) \<Longrightarrow> (\<And>e. E e []) \<Longrightarrow> emits obs (lift r) N E"
  by (simp add: emits_def lift_def split: sum.splits)

lemmas emits_rules = emits_seq emits_try_except emits_send_to_client emits_read_time_time
  emits_read_now_isoformat emits_read_uuid4 emits_call_lambda_invoke emits_call_invoke_agent
  emits_lift_any emits_ret emits_throw emits_if

lemma type_frames [simp]:
  "field ''type'' strands_init_frame = Some (JStr ''trace'')"
  "field ''type'' (strands_final_frame rid cc now) = Some (JStr ''final'')"
  "field ''type'' (strands_error_frame msg) = Some (JStr ''error'')"
  "field ''type'' (trace_frame tr) = Some (JStr ''trace'')"
  "field ''type'' (bedrock_config_error_frame msg) = Some (JStr ''error'')"
  "field ''type'' (bedrock_error_frame msg) = Some (JStr ''error'')"
  "field ''type'' (error_frame rid e fw) = Some (JStr ''error'')"
  "field ''type'' (final_frame rid c ct fw) = Some (JStr ''final'')"
  by (simp_all add: field_def strands_init_frame_def strands_final_frame_def
      strands_error_frame_def trace_frame_def bedrock_config_error_frame_def
      bedrock_error_frame_def error_frame_def final_frame_def)

lemma emits_invoke_strands_agent:
  "emits frames (invoke_strands_agent w payload sid api c)
     (\<lambda>completion fs. \<exists>t. fs = [strands_init_frame, t] \<and> is_terminal t)
     (\<lambda>e fs. False)"
  unfolding invoke_strands_agent_def Let_def
  by ((intro emits_rules allI conjI impI
        | simp add: is_terminal_def del: json_dumps.simps split: option.splits json.splits)+)


lemma returns_of_emits:
  assumes "emits obs m N (\<lambda>e fs. False)"
  shows "\<exists>x s'. m s = (Inr x, s') \<and> (\<exists>fs. obs s' = obs s @ fs \<and> N x fs)"
proof -
  from assms obtain fs where "obs (snd (m s)) = obs s @ fs"
    "case fst (m s) of Inr x \<Rightarrow> N x fs | Inl e \<Rightarrow> False"
    unfolding emits_def by blast
  then show ?thesis by (cases "m s") (auto split: sum.splits)
qed

subsection \<open>Steps that leave an observation alone\<close>

lemma keeps_ret: "keeps obs (ret x)" by (simp add: keeps_def ret_def)
lemma keeps_throw: "keeps obs (throw e)" by (simp add: keeps_def throw_def)
lemma keeps_lift: "keeps obs (lift r)" by (simp add: keeps_def lift_def)

lemma keeps_seq: "keeps obs m \<Longrightarrow> (\<And>x. keeps obs (f x)) \<Longrightarrow> keeps obs (seq m f)"
  unfolding keeps_def seq_def
  apply (intro allI)
  subgoal for s
    apply (cases "m s")
    subgoal for r s1
      by (cases r) (auto dest: spec[of _ s] split: prod.splits)
    done
  done

lemma keeps_try_except: "keeps obs m \<Longrightarrow> (\<And>e. keeps obs (h e)) \<Longrightarrow> keeps obs (try_except m h)"
  unfolding keeps_def try_except_def
  apply (intro allI)
  subgoal for s
    apply (cases "m s")
    subgoal for r s1
      by (cases r) (auto dest: spec[of _ s] split: prod.splits)
    done
  done

lemma keeps_if: "keeps obs m1 \<Longrightarrow> keeps obs m2 \<Longrightarrow> keeps obs (if b then m1 else m2)"
  by simp

lemma keeps_wo_prims:
  "keeps work_orders (send_to_client w api c m)"
  "keeps work_orders (read_time_time w)"
  "keeps work_orders (read_now_isoformat w)"
  "keeps work_orders (read_uuid4 w)"
  "keeps work_orders (call_lambda_invoke w fn p)"
  "keeps work_orders (call_invoke_agent w a b c' d)"
  by (simp_all add: keeps_def send_to_client_eq Let_def read_time_time_def read_now_isoformat_def
      read_uuid4_def call_lambda_invoke_def call_invoke_agent_def split: option.splits)

lemmas keeps_rules = keeps_seq keeps_try_except keeps_wo_prims keeps_ret keeps_throw keeps_lift
  keeps_if

lemma keeps_wo_invoke_strands_agent: "keeps work_orders (invoke_strands_agent w payload sid api c)"
  unfolding invoke_strands_agent_def Let_def
  by ((intro keeps_rules allI conjI impI
        | simp del: json_dumps.simps split: option.splits json.splits)+)

lemma keeps_wo_process_event_item: "keeps work_orders (process_event_item w api c acc it)"
  unfolding process_event_item_def
  by ((intro keeps_rules allI conjI impI | simp split: option.splits bytes.splits)+)

lemma keeps_wo_process_events: "keeps work_orders (process_events w api c acc its)"
  by (induction its arbitrary: acc) (auto intro!: keeps_rules keeps_wo_process_event_item)

lemma keeps_wo_invoke_bedrock_agent: "keeps work_orders (invoke_bedrock_agent w payload sid api c)"
  unfolding invoke_bedrock_agent_def Let_def
  by ((intro keeps_rules keeps_wo_process_events allI conjI impI
        | simp split: option.splits)+)

subsection \<open>The streaming loop\<close>

lemma emits_process_event_item:
  "emits frames (process_event_item w api c acc it)
     (\<lambda>x fs. x = acc @ chunk_text it \<and> fs = map trace_frame (traces [it]) \<and> decodable it)
     (\<lambda>e fs. fs = [] \<and> \<not> decodable it)"
  unfolding process_event_item_def
  by ((intro emits_rules allI conjI impI
        | simp add: chunk_text_def traces_def decodable_def split: option.splits bytes.splits)+)

lemma traces_Cons: "traces (it # its) = traces [it] @ traces its"
  by (simp add: traces_def)

lemma emits_process_events:
  "emits frames (process_events w api c acc its)
     (\<lambda>x fs. x = acc @ concat (map chunk_text its) \<and> fs = map trace_frame (traces its)
              \<and> list_all decodable its)
     (\<lambda>e fs. (\<exists>trs. fs = map trace_frame trs) \<and> \<not> list_all decodable its)"
proof (induction its arbitrary: acc)
  case Nil
  show ?case by (simp add: emits_ret traces_def)
next
  case (Cons it its)
  show ?case
    unfolding process_events.simps
    apply (rule emits_seq)
    apply (rule emits_weaken[OF emits_process_event_item])
     apply (rule emits_weaken[OF Cons.IH])
      apply (simp add: traces_Cons[of it its])
     apply (auto simp: traces_Cons[of it its])[1]
     apply (metis map_append)
    apply (auto intro: exI[of _ "[]"])
    done
qed


lemma bedrock_frames_traces: "bedrock_frames (map trace_frame trs)"
  unfolding bedrock_frames_def by (rule exI[of _ trs], rule exI[of _ "[]"]) simp

lemma bedrock_frames_error:
  "field ''type'' m = Some (JStr ''error'') \<Longrightarrow> bedrock_frames (map trace_frame trs @ [m])"
  unfolding bedrock_frames_def by (rule exI[of _ trs], rule exI[of _ "[m]"]) simp

lemma bedrock_frames_error_only:
  "field ''type'' m = Some (JStr ''error'') \<Longrightarrow> bedrock_frames [m]"
  using bedrock_frames_error[of m "[]"] by simp

lemma emits_invoke_bedrock_agent:
  "emits frames (invoke_bedrock_agent w payload sid api c)
     (\<lambda>completion fs. bedrock_frames fs) (\<lambda>e fs. False)"
  unfolding invoke_bedrock_agent_def Let_def
  apply (rule emits_try_except)
  apply (rule emits_if)
   apply ((intro emits_rules allI conjI impI | simp add: bedrock_frames_error_only)+)[1]
  apply (rule emits_seq)
  apply (rule emits_call_invoke_agent)
   apply (rule emits_seq)
   apply (rule emits_weaken[OF emits_process_events])
    apply (auto intro!: emits_rules simp: bedrock_frames_traces bedrock_frames_error
      split: option.splits)[1]
   apply (auto intro!: emits_rules simp: bedrock_frames_traces bedrock_frames_error)[1]
  apply (auto intro!: emits_rules simp: bedrock_frames_error_only)[1]
  done




subsection \<open>The dispatcher\<close>

lemma store_safety_check_run:
  "\<exists>s2. store_safety_check w eb completion ct s = (Inr (), s2) \<and> posted s2 = posted s
      \<and> backend_calls s2 = backend_calls s
      \<and> (work_orders s2 = work_orders s \<or>
           (\<exists>wid. work_orders s2 = work_orders s
               @ [\<lparr>work_order_id = wid, safetyCheckResponse = extract_html_content completion,
                   safetyCheckPerformedAt = ct\<rparr>]))"
  by (auto simp: store_safety_check_def try_except_def seq_def lift_def ret_def update_item_def
      ddb_call_def Let_def split: sum.splits option.splits prod.splits if_splits)

lemma strategy_returns: "\<exists>completion s1. strategy w fw payload sid api c s = (Inr completion, s1)"
  unfolding strategy_def
  using returns_of_emits[OF emits_invoke_strands_agent, of w payload sid api c s]
    returns_of_emits[OF emits_invoke_bedrock_agent, of w payload sid api c s]
  by auto

lemma process_request_run:
  assumes fw: "py_get w eb ''agentFramework'' (JStr ''BedrockAgent'') = Inr fw"
  shows "\<exists>completion s1 s2 s3.
      strategy w fw (request_payload w eb) sid api c s = (Inr completion, s1)
    \<and> store_safety_check w eb completion (now_isoformat w (clock s1))
          (s1\<lparr>clock := Suc (clock s1)\<rparr>) = (Inr (), s2)
    \<and> send_to_client w api c
          (final_frame (''ws-'' @ c @ ''-'' @ dec_int (time_time w (clock s2))) completion
             (now_isoformat w (clock s1)) fw)
          (s2\<lparr>clock := Suc (clock s2)\<rparr>) = (Inr (), s3)
    \<and> process_request w api c eb sid s = (Inr \<lparr>statusCode = 200, body = ''Message sent''\<rparr>, s3)"
proof -
  obtain completion s1 where 1: "strategy w fw (request_payload w eb) sid api c s = (Inr completion, s1)"
    using strategy_returns by blast
  obtain s2 where 2: "store_safety_check w eb completion (now_isoformat w (clock s1))
          (s1\<lparr>clock := Suc (clock s1)\<rparr>) = (Inr (), s2)"
    using store_safety_check_run by blast
  obtain s3 where 3: "send_to_client w api c
          (final_frame (''ws-'' @ c @ ''-'' @ dec_int (time_time w (clock s2))) completion
             (now_isoformat w (clock s1)) fw)
          (s2\<lparr>clock := Suc (clock s2)\<rparr>) = (Inr (), s3)"
    by (simp add: send_to_client_eq)
  have "process_request w api c eb sid s = (Inr \<lparr>statusCode = 200, body = ''Message sent''\<rparr>, s3)"
    using 1 2 3 fw
    by (simp add: process_request_def strategy_def request_payload_def Let_def seq_def lift_def
        read_now_isoformat_def read_time_time_def ret_def del: json_dumps.simps)
  with 1 2 3 show ?thesis by blast
qed


lemma handle_message_run:
  assumes "raw_body ev = Some b" "json_loads w b = Some (JObj kvs)"
  shows "handle_message w api c ev s =
           process_request w api c (JObj kvs) (session_of w kvs s)
             (s\<lparr>uuids := Suc (Suc (uuids s))\<rparr>)"
proof -
  have fw: "py_get w (JObj kvs) ''agentFramework'' (JStr ''BedrockAgent'') = Inr (requested kvs)"
    by (simp add: py_get_def requested_def)
  obtain s3 where "process_request w api c (JObj kvs) (session_of w kvs s)
             (s\<lparr>uuids := Suc (Suc (uuids s))\<rparr>) = (Inr \<lparr>statusCode = 200, body = ''Message sent''\<rparr>, s3)"
    using process_request_run[OF fw] by blast
  then show ?thesis
    using assms
    by (simp add: handle_message_def seq_def read_uuid4_def py_get_def try_except_def
        session_of_def)
qed

lemma handle_connect_eq:
  "handle_connect w c s =
     (Inr \<lparr>statusCode = 200, body = ''Connected''\<rparr>,
      case dynamodb w (ddb_calls s) of
        None \<Rightarrow> s\<lparr>clock := Suc (Suc (clock s)), ddb_calls := Suc (ddb_calls s),
                  ws_connection_table := (ws_connection_table s)
                    (c \<mapsto> \<lparr>ttl = time_time w (clock s) + 600,
                           timestamp = now_str w (Suc (clock s))\<rparr>)\<rparr>
      | Some e \<Rightarrow> s\<lparr>clock := Suc (Suc (clock s)), ddb_calls := Suc (ddb_calls s)\<rparr>)"
  by (simp add: handle_connect_def try_except_def seq_def read_time_time_def read_now_str_def
      put_item_def ddb_call_def ret_def split: option.splits)

lemma handle_disconnect_eq:
  "handle_disconnect w c s =
     (Inr \<lparr>statusCode = 200, body = ''Disconnected''\<rparr>,
      case dynamodb w (ddb_calls s) of
        None \<Rightarrow> s\<lparr>ddb_calls := Suc (ddb_calls s),
                  ws_connection_table := (ws_connection_table s)(c := None)\<rparr>
      | Some e \<Rightarrow> s\<lparr>ddb_calls := Suc (ddb_calls s)\<rparr>)"
  by (simp add: handle_disconnect_def try_except_def seq_def delete_item_def ddb_call_def ret_def
      split: option.splits)

lemma try_except_ret_handler [simp]:
  "try_except m (\<lambda>e. ret x) s \<noteq> (Inl e', s')"
  by (cases "m s") (auto simp: try_except_def ret_def split: sum.splits)

lemma route_raises:
  assumes "route w ev s = (Inl e, s')"
  shows "s' = s"
  using assms
  unfolding route_def
  apply (simp add: ret_def handle_connect_eq handle_disconnect_eq seq_def lift_def Let_def
      del: json_dumps.simps
      split: option.splits if_splits sum.splits prod.splits)
  done

lemma lambda_handler_eq:
  "lambda_handler w ev s =
     (case route w ev s of
        (Inl e, s') \<Rightarrow> (Inr \<lparr>statusCode = 500, body = ''Internal server error: '' @ str_exn e\<rparr>, s)
      | (Inr r, s') \<Rightarrow> (Inr r, s'))"
  by (auto simp: lambda_handler_def try_except_def ret_def dest: route_raises
      split: prod.splits sum.splits)



subsection \<open>Routing of data messages\<close>









subsection \<open>The example environment\<close>








lemma add_content_response_text_items:
  "add_content (response_content_item w) acc (text_items ts) = Inr (acc @ concat ts)"
  by (induction ts arbitrary: acc)
     (simp_all add: text_items_def response_content_item_def and_then_def py_str_def)

lemma add_content_body_text_items:
  "add_content (body_content_item w) acc (text_items ts) = Inr (acc @ concat ts)"
  by (induction ts arbitrary: acc)
     (simp_all add: text_items_def body_content_item_def and_then_def py_str_def)

subsection \<open>Whole requests\<close>
lemma send_to_client_frames:
  "frames (snd (send_to_client w api c m s)) = frames s @ [m]"
  "work_orders (snd (send_to_client w api c m s)) = work_orders s"
  by (simp_all add: send_to_client_eq Let_def frames_def split: option.splits)

lemma send_to_client_run:
  assumes "send_to_client w api c m s = (r, s')"
  shows "frames s' = frames s @ [m]" "work_orders s' = work_orders s"
  using send_to_client_frames[of w api c m s] assms by simp_all

lemma keeps_wo_strategy: "keeps work_orders (strategy w fw payload sid api c)"
  by (simp add: strategy_def keeps_wo_invoke_strands_agent keeps_wo_invoke_bedrock_agent)

lemma strategy_frames:
  assumes "strategy w fw payload sid api c s = (Inr completion, s1)"
  shows "\<exists>fs. frames s1 = frames s @ fs
           \<and> (if fw = JStr ''StrandsSDK''
               then (\<exists>t. fs = [strands_init_frame, t] \<and> is_terminal t)
               else bedrock_frames fs)"
  using assms
    returns_of_emits[OF emits_invoke_strands_agent, of w payload sid api c s]
    returns_of_emits[OF emits_invoke_bedrock_agent, of w payload sid api c s]
  by (auto simp: strategy_def split: if_splits)

lemma handle_message_summary:
  assumes "raw_body ev = Some b" "json_loads w b = Some (JObj kvs)"
  shows "\<exists>completion s1 s3 fs rid.
      strategy w (requested kvs) (request_payload w (JObj kvs)) (session_of w kvs s) api c
          (s\<lparr>uuids := Suc (Suc (uuids s))\<rparr>) = (Inr completion, s1)
    \<and> handle_message w api c ev s = (Inr \<lparr>statusCode = 200, body = ''Message sent''\<rparr>, s3)
    \<and> frames s1 = frames s @ fs
    \<and> (if requested kvs = JStr ''StrandsSDK''
        then (\<exists>t. fs = [strands_init_frame, t] \<and> is_terminal t)
        else bedrock_frames fs)
    \<and> frames s3 = frames s1
         @ [final_frame rid completion (now_isoformat w (clock s1)) (requested kvs)]
    \<and> (work_orders s3 = work_orders s \<or>
         (\<exists>wid. work_orders s3 = work_orders s
            @ [\<lparr>work_order_id = wid, safetyCheckResponse = extract_html_content completion,
                safetyCheckPerformedAt = now_isoformat w (clock s1)\<rparr>]))"
proof -
  let ?s0 = "s\<lparr>uuids := Suc (Suc (uuids s))\<rparr>"
  have fw: "py_get w (JObj kvs) ''agentFramework'' (JStr ''BedrockAgent'') = Inr (requested kvs)"
    by (simp add: py_get_def requested_def)
  from process_request_run[OF fw, of "session_of w kvs s" api c ?s0]
  obtain completion s1 s2 s3 where
    1: "strategy w (requested kvs) (request_payload w (JObj kvs)) (session_of w kvs s) api c ?s0
          = (Inr completion, s1)"
    and 2: "store_safety_check w (JObj kvs) completion (now_isoformat w (clock s1))
          (s1\<lparr>clock := Suc (clock s1)\<rparr>) = (Inr (), s2)"
    and 3: "send_to_client w api c
          (final_frame (''ws-'' @ c @ ''-'' @ dec_int (time_time w (clock s2))) completion
             (now_isoformat w (clock s1)) (requested kvs))
          (s2\<lparr>clock := Suc (clock s2)\<rparr>) = (Inr (), s3)"
    and 4: "process_request w api c (JObj kvs) (session_of w kvs s) ?s0
          = (Inr \<lparr>statusCode = 200, body = ''Message sent''\<rparr>, s3)"
    by blast
  from strategy_frames[OF 1] obtain fs where fs: "frames s1 = frames ?s0 @ fs"
    "if requested kvs = JStr ''StrandsSDK''
       then (\<exists>t. fs = [strands_init_frame, t] \<and> is_terminal t) else bedrock_frames fs"
    by blast
  have "work_orders (snd (strategy w (requested kvs) (request_payload w (JObj kvs))
          (session_of w kvs s) api c ?s0)) = work_orders ?s0"
    using keeps_wo_strategy unfolding keeps_def by blast
  with 1 have wo1: "work_orders s1 = work_orders s" by simp
  from store_safety_check_run[of w "JObj kvs" completion "now_isoformat w (clock s1)"
      "s1\<lparr>clock := Suc (clock s1)\<rparr>"] 2
  have p2: "posted s2 = posted s1"
    and wo2: "work_orders s2 = work_orders s1 \<or>
         (\<exists>wid. work_orders s2 = work_orders s1
            @ [\<lparr>work_order_id = wid, safetyCheckResponse = extract_html_content completion,
                safetyCheckPerformedAt = now_isoformat w (clock s1)\<rparr>])"
    by auto
  from send_to_client_run[OF 3]
  have f3: "frames s3 = frames s2 @ [final_frame (''ws-'' @ c @ ''-'' @ dec_int (time_time w (clock s2)))
        completion (now_isoformat w (clock s1)) (requested kvs)]"
    and wo3: "work_orders s3 = work_orders s2"
    by (auto simp: frames_def)
  have f0: "frames ?s0 = frames s" by (simp add: frames_def)
  have f2: "frames s2 = frames s1" using p2 by (simp add: frames_def)
  show ?thesis
    using 1 4 fs f0 f2 f3 wo1 wo2 wo3 handle_message_run[OF assms, of api c s]
    by (intro exI[of _ completion] exI[of _ s1] exI[of _ s3] exI[of _ fs]
        exI[of _ "''ws-'' @ c @ ''-'' @ dec_int (time_time w (clock s2))"]) auto
qed



lemma clean_report: "clean_html_response ''<div>Report</div>'' = ''<div>Report</div>''"
  by (simp add: clean_html_response_def str_replace_def startswith_def str_split_def is_space_def
    rstrip_chars_def strip_chars_def lstrip_chars_def find_start_index_def html_start_patterns_def
    closing_tag_at_def str_strip_def)

lemma example_loads_values:
  "example_loads strands_payload
     = Some (JObj [(''statusCode'', JInt 200), (''body'', JStr strands_body)])"
  "example_loads strands_body
     = Some (JObj [(''sessionId'', JStr ''u0''),
                    (''response'', JObj [(''role'', JStr ''assistant''),
                       (''content'', JArr [JObj [(''text'', JStr ''<div>Report</div>'')]])]),
                    (''framework'', JStr ''StrandsSDK'')])"
  "example_loads body_strands
     = Some (JObj [(''token'', JStr ''good''), (''agentFramework'', JStr ''StrandsSDK''),
                    (''workOrderDetails'', JObj [(''work_order_id'', JStr ''WO1'')])])"
  "example_loads body_other
     = Some (JObj [(''token'', JStr ''good''), (''agentFramework'', JStr ''Other'')])"
  "example_loads body_bedrock
     = Some (JObj [(''token'', JStr ''good''),
                    (''workOrderDetails'', JObj [(''work_order_id'', JStr ''WO1''),
                                                 (''location_name'', JStr ''Site1'')])])"
  by (simp_all add: example_loads_def body_list_def
  body_no_token_def body_bedrock_def body_strands_def body_other_def body_bad_token_def
  strands_payload_def strands_body_def)

lemma example_extract:
  "extract_completion example_world
     (JObj [(''sessionId'', JStr ''u0''),
                    (''response'', JObj [(''role'', JStr ''assistant''),
                       (''content'', JArr [JObj [(''text'', JStr ''<div>Report</div>'')]])]),
                    (''framework'', JStr ''StrandsSDK'')]) = Inr ''<div>Report</div>''"
  by (simp add: extract_completion_def and_then_def py_in_def py_getitem_def
      response_content_item_def py_str_def)

lemma example_world_sel:
  "BEDROCK_AGENT_ID example_world = Some ''AGENT''"
  "BEDROCK_AGENT_ALIAS_ID example_world = Some ''ALIAS''"
  "STRANDS_AGENT_ID example_world = Some ''supervisor''"
  "WORK_ORDERS_TABLE_NAME example_world = Some ''WorkOrders''"
  "json_loads example_world = example_loads"
  "now_isoformat example_world n = ''T'' @ dec_nat n"
  "now_str example_world n = ''t'' @ dec_nat n"
  "time_time example_world n = int n"
  "uuid4 example_world n = ''u'' @ dec_nat n"
  "post_to_connection example_world n = None"
  "dynamodb example_world n = None"
  "lambda_invoke example_world fn p = Inr strands_payload"
  "invoke_agent example_world a b c d = Inr example_stream"
  by (simp_all add: example_world_def)

lemma example_strands_frames:
  "frames (snd (invoke_strands_agent example_world p sid example_api ''C1'' s))
    = frames s @ [strands_init_frame,
        strands_final_frame (''ws-strands-C1-'' @ dec_int (int (Suc (clock s))))
          ''<div>Report</div>'' (''T'' @ dec_nat (Suc (Suc (clock s))))]"
  unfolding invoke_strands_agent_def Let_def
  by (simp add: try_except_def seq_def send_to_client_eq call_lambda_invoke_def lift_def ret_def
      py_in_def py_get_def py_getitem_def example_extract clean_report read_time_time_def
      read_now_isoformat_def frames_def example_loads_values
      example_world_sel del: json_dumps.simps)


lemmas run_defs = try_except_def seq_def send_to_client_eq call_lambda_invoke_def
  call_invoke_agent_def lift_def ret_def throw_def py_in_def py_get_def py_getitem_def
  read_time_time_def read_now_isoformat_def read_uuid4_def update_item_def ddb_call_def
  store_safety_check_def process_request_def handle_message_def invoke_bedrock_agent_def
  process_event_item_def opt_truthy_def opt_str_def Let_def

lemma extract_report: "extract_html_content ''<div>Report</div>'' = ''<div>Report</div>''"
  by (simp add: extract_html_content_def search_block_def startswith_def)

lemma digit_chars:
  "digit_char 0 = CHR ''0''" "digit_char 1 = CHR ''1''" "digit_char 2 = CHR ''2''"
  "digit_char 3 = CHR ''3''" "digit_char 4 = CHR ''4''" "digit_char 5 = CHR ''5''"
  "digit_char 6 = CHR ''6''" "digit_char 7 = CHR ''7''" "digit_char 8 = CHR ''8''"
  "digit_char 9 = CHR ''9''" "digit_char (Suc 0) = CHR ''1''"
  by (simp_all add: digit_char_def char_of_def bit_iff_odd)

lemma digit_chars_Suc:
  "digit_char (Suc (Suc 0)) = CHR ''2''"
  "digit_char (Suc (Suc (Suc 0))) = CHR ''3''"
  "digit_char (Suc (Suc (Suc (Suc 0)))) = CHR ''4''"
  "digit_char (Suc (Suc (Suc (Suc (Suc 0))))) = CHR ''5''"
  "digit_char (Suc (Suc (Suc (Suc (Suc (Suc 0)))))) = CHR ''6''"
  "digit_char (Suc (Suc (Suc (Suc (Suc (Suc (Suc 0))))))) = CHR ''7''"
  "digit_char (Suc (Suc (Suc (Suc (Suc (Suc (Suc (Suc 0)))))))) = CHR ''8''"
  "digit_char (Suc (Suc (Suc (Suc (Suc (Suc (Suc (Suc (Suc 0))))))))) = CHR ''9''"
  by (simp_all add: digit_char_def char_of_def bit_iff_odd)

lemma dec_int_int [simp]: "dec_int (int n) = dec_nat n"
  by (simp add: dec_int_def)



lemma example_bedrock_run:
  "handle_message example_world example_api ''C1'' (example_event ''$default'' body_bedrock)
     initial_state
   = (Inr \<lparr>statusCode = 200, body = ''Message sent''\<rparr>,
      \<lparr>clock = 5, uuids = 2, ddb_calls = 1,
       posted = [(''C1'', envelope (trace_frame (JObj [(''orchestrationTrace'', JStr ''step'')]))
                    ''C1'' ''t1''),
                 (''C1'', envelope (final_frame ''ws-C1-3'' ''<div>Report</div>'' ''T2''
                    (JStr ''BedrockAgent'')) ''C1'' ''t4'')],
       backend_calls = [InvokeAgent (json_dumps (JObj [(''work_order_id'', JStr ''WO1''),
           (''location_name'', JStr ''Site1'')])) ''AGENT'' ''ALIAS'' (JStr ''u0'')],
       ws_connection_table = Map.empty,
       work_orders = [\<lparr>work_order_id = JStr ''WO1'', safetyCheckResponse = ''<div>Report</div>'',
                        safetyCheckPerformedAt = ''T2''\<rparr>]\<rparr>)"
  by (simp add: run_defs example_world_sel example_loads_values example_event_def
      initial_state_def example_stream_def dec_nat.simps digit_chars digit_chars_Suc
      extract_report del: json_dumps.simps)


lemma is_terminal_frames [simp]:
  "\<not> is_terminal strands_init_frame"
  "\<not> is_terminal (trace_frame tr)"
  "is_terminal (final_frame rid cc ct fw)"
  by (simp_all add: is_terminal_def)


lemma example_bodies:
  "raw_body (example_event rk bt) = Some bt"
  "json_loads example_world body_bedrock
     = Some (JObj [(''token'', JStr ''good''),
                    (''workOrderDetails'', JObj [(''work_order_id'', JStr ''WO1''),
                                                 (''location_name'', JStr ''Site1'')])])"
  "json_loads example_world body_strands
     = Some (JObj [(''token'', JStr ''good''), (''agentFramework'', JStr ''StrandsSDK''),
                    (''workOrderDetails'', JObj [(''work_order_id'', JStr ''WO1'')])])"
  "json_loads example_world body_other
     = Some (JObj [(''token'', JStr ''good''), (''agentFramework'', JStr ''Other'')])"
  by (simp_all add: example_event_def example_world_sel example_loads_values)

subsection \<open>The cleaner\<close>

lemma is_space_blank [simp]: "is_space (CHR '' '')"
  by (simp add: is_space_def)

lemma replace_from_absent:
  "\<forall>i. \<not> startswith (drop i s) old \<Longrightarrow> replace_from old new 0 s = s"
proof (induction s)
  case Nil
  show ?case by simp
next
  case (Cons c s)
  from Cons.prems have "\<not> startswith (c # s) old" by (metis drop0)
  moreover have "\<forall>i. \<not> startswith (drop i s) old"
    using Cons.prems by (metis drop_Suc_Cons)
  ultimately show ?case using Cons.IH by simp
qed

lemma startswith_single: "startswith s [c] = (s \<noteq> [] \<and> hd s = c)"
  by (cases s) (simp_all add: startswith_def)

lemma replace_char_absent: "c \<notin> set s \<Longrightarrow> str_replace s [c] new = s"
  unfolding str_replace_def
  by (induction s) (auto simp: startswith_single)

lemma str_find_None_iff: "str_find s p = None \<longleftrightarrow> (\<forall>i. \<not> startswith (drop i s) p)"
proof (induction s)
  case Nil
  show ?case by (auto simp: startswith_def)
next
  case (Cons c s)
  show ?case
  proof
    assume a: "str_find (c # s) p = None"
    then have 1: "\<not> startswith (c # s) p" and 2: "str_find s p = None"
      by (auto split: if_splits)
    show "\<forall>i. \<not> startswith (drop i (c # s)) p"
    proof
      fix i show "\<not> startswith (drop i (c # s)) p"
        using 1 2 Cons.IH by (cases i) auto
    qed
  next
    assume a: "\<forall>i. \<not> startswith (drop i (c # s)) p"
    then have "\<not> startswith (c # s) p" by (metis drop0)
    moreover have "\<forall>i. \<not> startswith (drop i s) p" using a by (metis drop_Suc_Cons)
    ultimately show "str_find (c # s) p = None" using Cons.IH by simp
  qed
qed

lemma replace_absent: "\<not> str_contains old s \<Longrightarrow> str_replace s old new = s"
  unfolding str_replace_def str_contains_def
  by (rule replace_from_absent) (simp add: str_find_None_iff)

lemma spaced_Cons: "spaced (c # s) \<Longrightarrow> spaced s"
  by (cases s) simp_all

lemma spaced_append_left: "spaced (a @ b) \<Longrightarrow> spaced a"
proof (induction a rule: spaced.induct)
  case 1 show ?case by simp
next
  case (2 c)
  then show ?case by (cases b) simp_all
next
  case (3 c d s)
  then show ?case by simp
qed

lemma spaced_append_right: "spaced (a @ b) \<Longrightarrow> spaced b"
  by (induction a) (auto dest: spaced_Cons)

lemma spaced_chars: "spaced s \<Longrightarrow> c \<in> set s \<Longrightarrow> is_space c \<Longrightarrow> c = CHR '' ''"
  by (induction s rule: spaced.induct) auto

lemma spaced_append:
  "spaced a \<Longrightarrow> spaced b \<Longrightarrow> a = [] \<or> b = [] \<or> \<not> is_space (last a) \<or> \<not> is_space (hd b)
     \<Longrightarrow> spaced (a @ b)"
proof (induction a rule: spaced.induct)
  case 1 then show ?case by simp
next
  case (2 c)
  then show ?case by (cases b) auto
next
  case (3 c d s)
  then show ?case by auto
qed

lemma spaced_take: "spaced s \<Longrightarrow> spaced (take n s)"
  by (metis append_take_drop_id spaced_append_left)

lemma spaced_drop: "spaced s \<Longrightarrow> spaced (drop n s)"
  by (metis append_take_drop_id spaced_append_right)

lemma spaced_dropWhile: "spaced s \<Longrightarrow> spaced (dropWhile P s)"
  by (metis takeWhile_dropWhile_id spaced_append_right)

lemma rstrip_prefix: "\<exists>t. s = rev (dropWhile P (rev s)) @ t \<and> (\<forall>c\<in>set t. P c)"
proof -
  have "rev s = takeWhile P (rev s) @ dropWhile P (rev s)" by simp
  then have "s = rev (dropWhile P (rev s)) @ rev (takeWhile P (rev s))"
    by (metis rev_append rev_rev_ident)
  moreover have "\<forall>c\<in>set (rev (takeWhile P (rev s))). P c"
    by (auto dest: set_takeWhileD)
  ultimately show ?thesis by blast
qed

lemma spaced_rstrip: "spaced s \<Longrightarrow> spaced (rev (dropWhile P (rev s)))"
  using rstrip_prefix[of s P] by (metis spaced_append_left)

lemma str_join_Cons: "str_join sep (x # xs) = (if xs = [] then x else x @ sep @ str_join sep xs)"
  by (cases xs) simp_all

lemma split_join_id:
  assumes "spaced s" "\<forall>c\<in>set w. \<not> is_space c"
    and "s \<noteq> [] \<longrightarrow> \<not> is_space (last s)"
    and "w = [] \<longrightarrow> s = [] \<or> \<not> is_space (hd s)"
  shows "str_join '' '' (split_from w s) = w @ s"
  using assms
proof (induction s arbitrary: w)
  case Nil
  then show ?case by simp
next
  case (Cons c s)
  show ?case
  proof (cases "is_space c")
    case True
    with Cons.prems have c: "c = CHR '' ''" and w: "w \<noteq> []"
      by (auto dest: spaced_chars[of _ c])
    from True Cons.prems(3) have s: "s \<noteq> []" by auto
    with True Cons.prems(1) have hs: "\<not> is_space (hd s)" by (cases s) auto
    have ih: "str_join '' '' (split_from [] s) = [] @ s"
      using Cons.prems s hs by (intro Cons.IH) (auto dest: spaced_Cons)
    with s have ne: "split_from [] s \<noteq> []" by auto
    show ?thesis using True w ih ne c by (simp add: str_join_Cons)
  next
    case False
    have "str_join '' '' (split_from (w @ [c]) s) = (w @ [c]) @ s"
      using Cons.prems False by (intro Cons.IH) (auto dest: spaced_Cons)
    with False show ?thesis by simp
  qed
qed

lemma tidy_split_join: "tidy s \<Longrightarrow> str_join '' '' (str_split s) = s"
  unfolding tidy_def str_split_def using split_join_id[of s "[]"] by auto

lemma words_ok_simps [simp]:
  "words_ok []"
  "words_ok (x # xs) = (x \<noteq> [] \<and> (\<forall>c\<in>set x. \<not> is_space c) \<and> words_ok xs)"
  by (auto simp: words_ok_def)

lemma words_ok_split: "\<forall>c\<in>set w. \<not> is_space c \<Longrightarrow> words_ok (split_from w s)"
  by (induction s arbitrary: w) simp_all

lemma spaced_word: "\<forall>c\<in>set x. \<not> is_space c \<Longrightarrow> spaced x"
  by (induction x rule: spaced.induct) auto

lemma tidy_join: "words_ok ws \<Longrightarrow> tidy (str_join '' '' ws)"
proof (induction "'' ''" ws rule: str_join.induct)
  case 1
  show ?case by (simp add: tidy_def)
next
  case (2 x)
  then show ?case by (cases x) (auto simp: tidy_def spaced_word)
next
  case (3 x y xs)
  then have x: "x \<noteq> []" "\<forall>c\<in>set x. \<not> is_space c" and rest: "words_ok (y # xs)"
    by auto
  from 3(1)[OF rest] have t: "tidy (str_join '' '' (y # xs))" .
  have ne: "str_join '' '' (y # xs) \<noteq> []"
    using rest by (cases xs) auto
  have 1: "spaced ('' '' @ str_join '' '' (y # xs))"
    using t ne by (intro spaced_append) (auto simp: tidy_def)
  have lx: "\<not> is_space (last x)" using x by (meson last_in_set)
  have "spaced (x @ '' '' @ str_join '' '' (y # xs))"
    by (rule spaced_append[OF spaced_word[OF x(2)] 1]) (simp add: lx)
  moreover have "\<not> is_space (hd (x @ '' '' @ str_join '' '' (y # xs)))"
    using x by (cases x) auto
  moreover have "\<not> is_space (last (x @ '' '' @ str_join '' '' (y # xs)))"
    using t ne by (simp add: tidy_def)
  ultimately show ?case by (simp add: tidy_def)
qed

lemma tidy_normalised: "tidy (str_join '' '' (str_split s))"
  unfolding str_split_def by (intro tidy_join words_ok_split) simp

lemma closing_tag_at_Some:
  "closing_tag_at s = Some n \<longleftrightarrow>
     (\<exists>name rest. s = CHR ''<'' # CHR ''/'' # name @ CHR ''>'' # rest \<and> name \<noteq> []
        \<and> CHR ''>'' \<notin> set name \<and> CHR ''<'' \<notin> set rest \<and> n = length name + 3)"
proof
  assume a: "closing_tag_at s = Some n"
  then obtain r where s: "s = CHR ''<'' # CHR ''/'' # r"
    by (auto simp: closing_tag_at_def split: list.splits if_splits)
  let ?name = "takeWhile (\<lambda>c. c \<noteq> CHR ''>'') r" and ?after = "dropWhile (\<lambda>c. c \<noteq> CHR ''>'') r"
  from a s have f: "?name \<noteq> []" "?after \<noteq> []" "CHR ''<'' \<notin> set (tl ?after)" "n = length ?name + 3"
    by (auto simp: closing_tag_at_def Let_def split: if_splits)
  from f(2) have h: "hd ?after = CHR ''>''"
    using hd_dropWhile[of "\<lambda>c. c \<noteq> CHR ''>''" r] by auto
  with f(2) have "?after = CHR ''>'' # tl ?after" by (cases ?after) auto
  then have "r = ?name @ CHR ''>'' # tl ?after"
    by (metis takeWhile_dropWhile_id)
  moreover have "CHR ''>'' \<notin> set ?name" by (auto dest: set_takeWhileD)
  ultimately show "\<exists>name rest. s = CHR ''<'' # CHR ''/'' # name @ CHR ''>'' # rest \<and> name \<noteq> []
        \<and> CHR ''>'' \<notin> set name \<and> CHR ''<'' \<notin> set rest \<and> n = length name + 3"
    using s f by blast
next
  assume "\<exists>name rest. s = CHR ''<'' # CHR ''/'' # name @ CHR ''>'' # rest \<and> name \<noteq> []
        \<and> CHR ''>'' \<notin> set name \<and> CHR ''<'' \<notin> set rest \<and> n = length name + 3"
  then obtain name rest where s: "s = CHR ''<'' # CHR ''/'' # name @ CHR ''>'' # rest"
    and f: "name \<noteq> []" "CHR ''>'' \<notin> set name" "CHR ''<'' \<notin> set rest" "n = length name + 3"
    by blast
  from f(2) have all: "\<forall>x\<in>set name. x \<noteq> CHR ''>''" by auto
  have 1: "takeWhile (\<lambda>c. c \<noteq> CHR ''>'') (name @ CHR ''>'' # rest) = name"
    using all by (simp add: takeWhile_tail)
  have 2: "dropWhile (\<lambda>c. c \<noteq> CHR ''>'') (name @ CHR ''>'' # rest) = CHR ''>'' # rest"
    using all by (simp add: dropWhile_append3)
  show "closing_tag_at s = Some n"
    using f by (simp add: closing_tag_at_def s 1 2)
qed

lemma closing_tag_at_append:
  assumes "closing_tag_at u = Some n" "CHR ''<'' \<notin> set t"
  shows "closing_tag_at (u @ t) = Some n"
proof -
  from assms(1) obtain name rest where "u = CHR ''<'' # CHR ''/'' # name @ CHR ''>'' # rest"
    "name \<noteq> []" "CHR ''>'' \<notin> set name" "CHR ''<'' \<notin> set rest" "n = length name + 3"
    unfolding closing_tag_at_Some by blast
  then have "u @ t = CHR ''<'' # CHR ''/'' # name @ CHR ''>'' # (rest @ t)"
    "name \<noteq> []" "CHR ''>'' \<notin> set name" "CHR ''<'' \<notin> set (rest @ t)" "n = length name + 3"
    using assms(2) by auto
  then show ?thesis unfolding closing_tag_at_Some by blast
qed

lemma closing_tag_at_take:
  assumes "closing_tag_at s = Some n"
  shows "closing_tag_at (take n s) = Some n" "n \<le> length s" "3 \<le> n"
    "CHR ''<'' \<notin> set (drop n s)" "last (take n s) = CHR ''>''"
proof -
  from assms obtain name rest where s: "s = CHR ''<'' # CHR ''/'' # name @ CHR ''>'' # rest"
    and f: "name \<noteq> []" "CHR ''>'' \<notin> set name" "CHR ''<'' \<notin> set rest" "n = length name + 3"
    unfolding closing_tag_at_Some by blast
  have "take (Suc (Suc (Suc (length name)))) s = CHR ''<'' # CHR ''/'' # name @ [CHR ''>'']"
    by (simp add: s)
  then have t: "take n s = CHR ''<'' # CHR ''/'' # name @ [CHR ''>'']"
    by (simp add: f(4) eval_nat_numeral)
  show "closing_tag_at (take n s) = Some n"
    unfolding closing_tag_at_Some t using f
    by (intro exI[of _ name] exI[of _ "[]"]) simp
  show "n \<le> length s" "3 \<le> n" by (simp_all add: s f(4))
  show "CHR ''<'' \<notin> set (drop n s)" using f(3) by (simp add: s f(4) eval_nat_numeral)
  show "last (take n s) = CHR ''>''" by (simp add: t)
qed

lemma last_tag_match_bounds:
  "last_tag_match s = Some e \<Longrightarrow> e \<le> length s \<and> 3 \<le> e \<and> CHR ''<'' \<notin> set (drop e s)"
proof (induction s arbitrary: e)
  case Nil
  then show ?case by simp
next
  case (Cons c s)
  show ?case
  proof (cases "closing_tag_at (c # s)")
    case (Some n)
    with Cons.prems have "e = n" by simp
    with closing_tag_at_take[OF Some] show ?thesis by simp
  next
    case None
    with Cons.prems obtain e' where e': "last_tag_match s = Some e'" "e = Suc e'"
      by auto
    from Cons.IH[OF e'(1)] e'(2) show ?thesis by simp
  qed
qed

lemma last_tag_match_take:
  "last_tag_match s = Some e \<Longrightarrow>
     last_tag_match (take e s) = Some e \<and> last (take e s) = CHR ''>''"
proof (induction s arbitrary: e)
  case Nil
  then show ?case by simp
next
  case (Cons c s)
  show ?case
  proof (cases "closing_tag_at (c # s)")
    case (Some n)
    with Cons.prems have e: "e = n" by simp
    from closing_tag_at_take[OF Some] have "closing_tag_at (take n (c # s)) = Some n"
      "last (take n (c # s)) = CHR ''>''" "3 \<le> n" by auto
    moreover then obtain d t where "take n (c # s) = d # t" by (cases "take n (c # s)") auto
    ultimately show ?thesis using e by simp
  next
    case None
    with Cons.prems obtain e' where e': "last_tag_match s = Some e'" "e = Suc e'"
      by auto
    from Cons.IH[OF e'(1)] have ih: "last_tag_match (take e' s) = Some e'"
      "last (take e' s) = CHR ''>''" by auto
    from last_tag_match_bounds[OF e'(1)] have b: "CHR ''<'' \<notin> set (drop e' s)" "3 \<le> e'" "e' \<le> length s"
      by auto
    have "closing_tag_at (c # take e' s) = None"
    proof (rule ccontr)
      assume "closing_tag_at (c # take e' s) \<noteq> None"
      then obtain n where "closing_tag_at (c # take e' s) = Some n" by auto
      from closing_tag_at_append[OF this b(1)] None show False by simp
    qed
    moreover have "take e' s \<noteq> []" using b by auto
    ultimately show ?thesis using e' ih by simp
  qed
qed

lemma last_tag_match_drop: "last_tag_match s = None \<Longrightarrow> last_tag_match (drop k s) = None"
proof (induction s arbitrary: k)
  case Nil
  then show ?case by simp
next
  case (Cons c s)
  then have "last_tag_match s = None" by (auto split: option.splits)
  with Cons show ?case by (cases k) auto
qed

lemma last_tag_match_dropWhile:
  "last_tag_match s = None \<Longrightarrow> last_tag_match (dropWhile P s) = None"
  by (metis dropWhile_eq_drop last_tag_match_drop)

lemma last_tag_match_prefix:
  "last_tag_match (u @ b) = None \<Longrightarrow> CHR ''<'' \<notin> set b \<Longrightarrow> last_tag_match u = None"
proof (induction u)
  case Nil
  then show ?case by simp
next
  case (Cons c u)
  from Cons.prems(1) have n: "closing_tag_at (c # u @ b) = None" "last_tag_match (u @ b) = None"
    by (auto split: option.splits)
  have "closing_tag_at (c # u) = None"
  proof (rule ccontr)
    assume "closing_tag_at (c # u) \<noteq> None"
    then obtain m where "closing_tag_at (c # u) = Some m" by auto
    from closing_tag_at_append[OF this Cons.prems(2)] n(1) show False by simp
  qed
  with Cons.IH[OF n(2) Cons.prems(2)] show ?case by simp
qed

lemma str_find_None_absent: "str_find s p = None \<longleftrightarrow> absent p s"
  by (simp add: str_find_None_iff absent_def)

lemma absent_drop: "absent p s \<Longrightarrow> absent p (drop k s)"
  by (simp add: absent_def)

lemma absent_dropWhile: "absent p s \<Longrightarrow> absent p (dropWhile P s)"
  by (metis dropWhile_eq_drop absent_drop)

lemma absent_prefix:
  assumes "absent p (u @ t)"
  shows "absent p u"
  unfolding absent_def
proof (intro allI notI)
  fix i assume a: "startswith (drop i u) p"
  then have "length (take (length p) (drop i u)) = length p"
    by (simp add: startswith_def)
  then have len: "length p \<le> length (drop i u)"
    by simp
  then have "take (length p) (drop i (u @ t)) = take (length p) (drop i u)"
    by (cases "i \<le> length u") auto
  with a have "startswith (drop i (u @ t)) p" by (simp add: startswith_def)
  with assms show False by (simp add: absent_def)
qed

lemma absent_take: "absent p s \<Longrightarrow> absent p (take k s)"
  by (metis append_take_drop_id absent_prefix)

lemma absent_rstrip: "absent p s \<Longrightarrow> absent p (rev (dropWhile P (rev s)))"
  using rstrip_prefix[of s P] by (metis absent_prefix)

lemma str_find_zero: "str_find s p = Some 0 \<longleftrightarrow> startswith s p"
  by (cases s) (auto simp: startswith_def)

lemma str_find_Some: "str_find s p = Some i \<Longrightarrow> startswith (drop i s) p"
proof (induction s arbitrary: i)
  case Nil
  then show ?case by (auto simp: startswith_def split: if_splits)
next
  case (Cons c s)
  then show ?case by (cases i) (auto split: if_splits)
qed

lemma find_start_index_fold: "find_start_index s = fold (earliest s) html_start_patterns None"
  by (simp add: find_start_index_def earliest_def[abs_def])

lemma fold_earliest_zero: "fold (earliest s) ps (Some 0) = Some 0"
  by (induction ps) (auto simp: earliest_def split: option.splits)

lemma fold_earliest_starts:
  "p \<in> set ps \<Longrightarrow> startswith s p \<Longrightarrow> fold (earliest s) ps acc = Some 0"
proof (induction ps arbitrary: acc)
  case Nil
  then show ?case by simp
next
  case (Cons q ps)
  show ?case
  proof (cases "q = p")
    case True
    with Cons.prems have "earliest s q acc = Some 0"
      by (auto simp: earliest_def str_find_zero[symmetric] split: option.splits)
    then show ?thesis by (simp add: fold_earliest_zero)
  next
    case False
    with Cons show ?thesis by simp
  qed
qed

lemma fold_earliest_absent:
  "\<forall>p\<in>set ps. absent p s \<Longrightarrow> fold (earliest s) ps acc = acc"
  by (induction ps arbitrary: acc) (simp_all add: earliest_def str_find_None_absent[symmetric])

lemma fold_earliest_None:
  "fold (earliest s) ps acc = None \<Longrightarrow> acc = None \<and> (\<forall>p\<in>set ps. absent p s)"
proof (induction ps arbitrary: acc)
  case Nil
  then show ?case by simp
next
  case (Cons q ps)
  from Cons.IH[of "earliest s q acc"] Cons.prems
  have 1: "earliest s q acc = None" and 2: "\<forall>p\<in>set ps. absent p s" by auto
  from 1 have "acc = None \<and> str_find s q = None"
    by (auto simp: earliest_def split: option.splits if_splits)
  with 2 show ?case by (simp add: str_find_None_absent)
qed

lemma fold_earliest_Some:
  "fold (earliest s) ps acc = Some i \<Longrightarrow>
     acc = Some i \<or> (\<exists>p\<in>set ps. startswith (drop i s) p)"
proof (induction ps arbitrary: acc)
  case Nil
  then show ?case by simp
next
  case (Cons q ps)
  from Cons.IH[of "earliest s q acc"] Cons.prems
  have "earliest s q acc = Some i \<or> (\<exists>p\<in>set ps. startswith (drop i s) p)" by simp
  then show ?case
  proof
    assume "earliest s q acc = Some i"
    then have "acc = Some i \<or> str_find s q = Some i"
      by (auto simp: earliest_def split: option.splits if_splits)
    then show ?thesis by (auto dest: str_find_Some)
  qed auto
qed

lemma anchored_start_index: "anchored s \<Longrightarrow> find_start_index s = None \<or> find_start_index s = Some 0"
  unfolding anchored_def find_start_index_fold
  by (auto simp: fold_earliest_starts fold_earliest_absent)

lemma pattern_facts:
  assumes "p \<in> set html_start_patterns"
  shows "p \<noteq> []" "hd p = CHR ''<''" "\<forall>c\<in>set p. \<not> is_space c"
  using assms by (auto simp: html_start_patterns_def is_space_def)

lemma startswith_append: "startswith s p \<Longrightarrow> \<exists>t. s = p @ t"
  unfolding startswith_def by (metis append_take_drop_id)

lemma startswith_hd: "startswith s p \<Longrightarrow> p \<noteq> [] \<Longrightarrow> s \<noteq> [] \<and> hd s = hd p"
  by (auto dest!: startswith_append)

lemma pattern_before_tag:
  assumes "p \<in> set html_start_patterns" "startswith s p" "last_tag_match s = Some e"
  shows "length p \<le> e"
proof -
  from assms(2) obtain t where s: "s = p @ t" by (auto dest: startswith_append)
  from assms(1) have "p = ''<div'' \<or> p = ''<html'' \<or> p = ''<body'' \<or> p = ''<section'' \<or> p = ''<h1''"
    by (simp add: html_start_patterns_def)
  then show ?thesis
    using assms(3) unfolding s
    by (elim disjE) (auto simp: closing_tag_at_def split: option.splits list.splits)
qed

lemma startswith_take: "startswith s p \<Longrightarrow> length p \<le> e \<Longrightarrow> startswith (take e s) p"
  by (simp add: startswith_def min_def)

lemma startswith_strip:
  assumes "startswith s p" "p \<noteq> []" "\<forall>c\<in>set p. \<not> is_space c"
  shows "startswith (str_strip s) p"
proof -
  from assms(1) obtain t where s: "s = p @ t" by (auto dest: startswith_append)
  from assms(2,3) have hp: "\<not> is_space (hd p)" by simp
  have 1: "dropWhile is_space (p @ t) = p @ t"
    using assms(2) hp by (cases p) auto
  have "\<exists>x\<in>set (rev p). \<not> is_space x" using assms(2,3) by (cases p) auto
  have 2: "dropWhile is_space (rev t @ rev p)
             = (if \<forall>x\<in>set (rev t). is_space x then rev p else dropWhile is_space (rev t) @ rev p)"
  proof -
    have "dropWhile is_space (rev p) = rev p"
      using assms(2,3) by (cases "rev p") (auto simp: dropWhile_eq_self_iff)
    then show ?thesis by (simp add: dropWhile_append)
  qed
  show ?thesis
    unfolding str_strip_def s 1 by (simp add: 2 startswith_def)
qed

lemma tidy_strip: "spaced s \<Longrightarrow> tidy (str_strip s)"
proof -
  assume sp: "spaced s"
  let ?t = "dropWhile is_space s"
  let ?y = "rev (dropWhile is_space (rev ?t))"
  have spy: "spaced ?y" using sp by (intro spaced_rstrip spaced_dropWhile)
  have "\<not> is_space (hd ?y) \<and> \<not> is_space (last ?y)" if ne: "?y \<noteq> []"
  proof -
    from ne have "dropWhile is_space (rev ?t) \<noteq> []" by simp
    from hd_dropWhile[OF this] have l: "\<not> is_space (last ?y)"
      by (simp add: last_rev)
    from rstrip_prefix[of ?t is_space] obtain b where b: "?t = ?y @ b" by blast
    with ne have tne: "?t \<noteq> []" by (metis Nil_is_append_conv)
    from b ne have "hd ?t = hd ?y" by (metis hd_append2)
    with hd_dropWhile[OF tne] have "\<not> is_space (hd ?y)" by simp
    with l show ?thesis by simp
  qed
  with spy show ?thesis by (auto simp: tidy_def str_strip_def)
qed

lemma strip_id: "tidy s \<Longrightarrow> str_strip s = s"
proof (cases "s = []")
  case True
  then show ?thesis by (simp add: str_strip_def)
next
  case False
  assume "tidy s"
  with False have h: "\<not> is_space (hd s)" "\<not> is_space (last s)" by (auto simp: tidy_def)
  have 1: "dropWhile is_space s = s" using h(1) by (simp add: dropWhile_eq_self_iff)
  have 2: "dropWhile is_space (rev s) = rev s"
    using h(2) False by (simp add: dropWhile_eq_self_iff hd_rev)
  show ?thesis by (simp add: str_strip_def 1 2)
qed

lemma rstrip_chars_id:
  assumes "s = [] \<or> last s \<notin> set cs"
  shows "rstrip_chars s cs = s"
proof (cases "s = []")
  case True
  then show ?thesis by (simp add: rstrip_chars_def)
next
  case False
  with assms have "dropWhile (\<lambda>c. c \<in> set cs) (rev s) = rev s"
    by (simp add: dropWhile_eq_self_iff hd_rev)
  then show ?thesis by (simp add: rstrip_chars_def)
qed

lemma lstrip_chars_id: "s = [] \<or> hd s \<notin> set cs \<Longrightarrow> lstrip_chars s cs = s"
  by (auto simp: lstrip_chars_def dropWhile_eq_self_iff)

lemma clean_html_response_phases:
  "clean_html_response x = (if x = [] then [] else truncate (anchor (normalise x)))"
  by (simp add: clean_html_response_def normalise_def anchor_def truncate_def Let_def)

lemma spaced_normalise: "spaced (normalise x)"
proof -
  have "tidy (str_join '' '' (str_split s))" for s by (rule tidy_normalised)
  then have sp: "spaced (str_join '' '' (str_split s))" for s by (simp add: tidy_def)
  show ?thesis
    unfolding normalise_def Let_def strip_chars_def rstrip_chars_def lstrip_chars_def
    by (intro spaced_rstrip spaced_dropWhile sp)
qed

lemma startswith_lt: "startswith s ''<'' \<longleftrightarrow> s \<noteq> [] \<and> hd s = CHR ''<''"
  by (rule startswith_single)

lemma anchor_props:
  assumes "spaced r"
  shows "spaced (anchor r)" "anchor r = [] \<or> hd (anchor r) = CHR ''<''" "anchored (anchor r)"
proof -
  define r8 where "r8 = (case find_start_index r of
               Some start_index \<Rightarrow> if start_index > 0 then drop start_index r else r
             | None \<Rightarrow> r)"
  define r9 where "r9 = (if CHR ''<'' \<in> set r8 then dropWhile (\<lambda>c. c \<noteq> CHR ''<'') r8 else r8)"
  have a: "anchor r = (if r9 \<noteq> [] \<and> \<not> startswith r9 ''<'' then ''<div>'' @ r9 @ ''</div>'' else r9)"
    by (simp add: anchor_def r8_def r9_def)
  have sp8: "spaced r8" using assms by (auto simp: r8_def spaced_drop split: option.splits)
  have sp9: "spaced r9" using sp8 by (simp add: r9_def spaced_dropWhile)
  have q8: "anchored r8"
  proof (cases "find_start_index r")
    case None
    then have "\<forall>p\<in>set html_start_patterns. absent p r"
      unfolding find_start_index_fold by (auto dest: fold_earliest_None)
    with None show ?thesis by (simp add: r8_def anchored_def)
  next
    case (Some i)
    then obtain p where p: "p \<in> set html_start_patterns" "startswith (drop i r) p"
      unfolding find_start_index_fold by (auto dest: fold_earliest_Some)
    have "r8 = drop i r" using Some by (cases "i = 0") (simp_all add: r8_def)
    with p show ?thesis by (auto simp: anchored_def)
  qed
  have q9: "anchored r9"
    using q8 unfolding anchored_def
  proof
    assume "\<exists>p\<in>set html_start_patterns. startswith r8 p"
    then obtain p where p: "p \<in> set html_start_patterns" "startswith r8 p" by blast
    with pattern_facts[OF p(1)] have "r8 \<noteq> []" "hd r8 = CHR ''<''"
      using startswith_hd[OF p(2)] by auto
    then have "r9 = r8" by (cases r8) (auto simp: r9_def)
    with p show "(\<exists>p\<in>set html_start_patterns. startswith r9 p)
        \<or> (\<forall>p\<in>set html_start_patterns. absent p r9)" by auto
  next
    assume "\<forall>p\<in>set html_start_patterns. absent p r8"
    then show "(\<exists>p\<in>set html_start_patterns. startswith r9 p)
        \<or> (\<forall>p\<in>set html_start_patterns. absent p r9)"
      by (auto simp: r9_def absent_dropWhile)
  qed
  have h9: "r9 = [] \<or> hd r9 = CHR ''<'' \<or> CHR ''<'' \<notin> set r9"
  proof (cases "CHR ''<'' \<in> set r8")
    case True
    then have ne: "dropWhile (\<lambda>c. c \<noteq> CHR ''<'') r8 \<noteq> []" by auto
    from hd_dropWhile[OF ne] True show ?thesis by (simp add: r9_def)
  next
    case False
    then show ?thesis by (simp add: r9_def)
  qed
  show "spaced (anchor r)"
  proof (cases "r9 \<noteq> [] \<and> \<not> startswith r9 ''<''")
    case True
    have 1: "spaced (''<div>'' @ r9)"
      by (rule spaced_append[OF _ sp9]) (simp_all add: is_space_def)
    have "spaced ((''<div>'' @ r9) @ ''</div>'')"
      by (rule spaced_append[OF 1]) (simp_all add: is_space_def)
    with True show ?thesis by (simp add: a)
  next
    case False
    with sp9 show ?thesis by (auto simp: a)
  qed
  show "anchor r = [] \<or> hd (anchor r) = CHR ''<''"
    by (auto simp: a startswith_lt)
  show "anchored (anchor r)"
  proof (cases "r9 \<noteq> [] \<and> \<not> startswith r9 ''<''")
    case True
    then have "startswith (anchor r) ''<div''" by (simp add: a startswith_def)
    then show ?thesis by (auto simp: anchored_def html_start_patterns_def)
  next
    case False
    with q9 show ?thesis by (auto simp: a)
  qed
qed

lemma truncate_props:
  assumes sp: "spaced r" and hd: "r = [] \<or> hd r = CHR ''<''" and an: "anchored r"
  shows "truncate r = [] \<or>
     (hd (truncate r) = CHR ''<'' \<and> tidy (truncate r) \<and> anchored (truncate r)
      \<and> (last_tag_match (truncate r) = None
           \<or> last_tag_match (truncate r) = Some (length (truncate r))))"
proof (cases "r = []")
  case True
  then show ?thesis by (simp add: truncate_def str_strip_def)
next
  case False
  with hd have h: "hd r = CHR ''<''" by simp
  define r11 where "r11 = (case last_tag_match r of Some e \<Rightarrow> take e r | None \<Rightarrow> r)"
  have t: "truncate r = str_strip r11" by (simp add: truncate_def r11_def)
  have sp11: "spaced r11" using sp by (auto simp: r11_def spaced_take split: option.splits)
  have ne11: "r11 \<noteq> []" and h11: "hd r11 = CHR ''<''"
    using False h by (auto simp: r11_def split: option.splits dest!: last_tag_match_bounds)
  have nsp: "\<not> is_space (CHR ''<'')" by (simp add: is_space_def)
  have lead: "dropWhile is_space r11 = r11"
    using ne11 h11 nsp by (simp add: dropWhile_eq_self_iff)
  have yne: "str_strip r11 \<noteq> []"
    using ne11 h11 nsp by (cases r11) (auto simp: str_strip_def lead)
  from rstrip_prefix[of r11 is_space] obtain b where
    b: "r11 = str_strip r11 @ b" "\<forall>c\<in>set b. is_space c"
    unfolding str_strip_def lead by blast
  have hy: "hd (str_strip r11) = CHR ''<''"
    using b(1) yne h11 by (metis hd_append2)
  have ty: "tidy (str_strip r11)" using sp11 by (rule tidy_strip)
  have a11: "anchored r11"
    using an unfolding anchored_def
  proof
    assume "\<exists>p\<in>set html_start_patterns. startswith r p"
    then obtain p where p: "p \<in> set html_start_patterns" "startswith r p" by blast
    have "startswith r11 p"
    proof (cases "last_tag_match r")
      case None
      with p show ?thesis by (simp add: r11_def)
    next
      case (Some e)
      from pattern_before_tag[OF p Some] p(2) Some show ?thesis
        by (simp add: r11_def startswith_take)
    qed
    with p show "(\<exists>p\<in>set html_start_patterns. startswith r11 p)
        \<or> (\<forall>p\<in>set html_start_patterns. absent p r11)" by blast
  next
    assume "\<forall>p\<in>set html_start_patterns. absent p r"
    then show "(\<exists>p\<in>set html_start_patterns. startswith r11 p)
        \<or> (\<forall>p\<in>set html_start_patterns. absent p r11)"
      by (auto simp: r11_def absent_take split: option.splits)
  qed
  have ay: "anchored (str_strip r11)"
    using a11 unfolding anchored_def
  proof
    assume "\<exists>p\<in>set html_start_patterns. startswith r11 p"
    then obtain p where p: "p \<in> set html_start_patterns" "startswith r11 p" by blast
    from startswith_strip[OF p(2)] pattern_facts[OF p(1)] have "startswith (str_strip r11) p"
      by simp
    with p show "(\<exists>p\<in>set html_start_patterns. startswith (str_strip r11) p)
        \<or> (\<forall>p\<in>set html_start_patterns. absent p (str_strip r11))" by blast
  next
    assume "\<forall>p\<in>set html_start_patterns. absent p r11"
    then have "\<forall>p\<in>set html_start_patterns. absent p (str_strip r11)"
      using b(1) by (metis absent_prefix)
    then show "(\<exists>p\<in>set html_start_patterns. startswith (str_strip r11) p)
        \<or> (\<forall>p\<in>set html_start_patterns. absent p (str_strip r11))" by blast
  qed
  have ly: "last_tag_match (str_strip r11) = None
           \<or> last_tag_match (str_strip r11) = Some (length (str_strip r11))"
  proof (cases "last_tag_match r")
    case None
    then have "last_tag_match r11 = None" by (simp add: r11_def)
    moreover have "CHR ''<'' \<notin> set b" using b(2) nsp by auto
    ultimately have "last_tag_match (str_strip r11) = None"
      using b(1) by (metis last_tag_match_prefix)
    then show ?thesis by simp
  next
    case (Some e)
    then have r11: "r11 = take e r" by (simp add: r11_def)
    from last_tag_match_take[OF Some] have m: "last_tag_match r11 = Some e" "last r11 = CHR ''>''"
      by (simp_all add: r11)
    from last_tag_match_bounds[OF Some] have len: "length r11 = e" by (simp add: r11)
    have "\<not> is_space (CHR ''>'')" by (simp add: is_space_def)
    with m(2) ne11 have "dropWhile is_space (rev r11) = rev r11"
      by (simp add: dropWhile_eq_self_iff hd_rev)
    then have "str_strip r11 = r11" by (simp add: str_strip_def lead)
    with m len show ?thesis by simp
  qed
  from yne hy ty ay ly show ?thesis by (simp add: t)
qed

lemma clean_fixpoint:
  assumes ne: "y \<noteq> []" and hd: "hd y = CHR ''<''" and ti: "tidy y" and an: "anchored y"
    and lt: "last_tag_match y = None \<or> last_tag_match y = Some (length y)"
    and h1: "\<not> str_contains [CHR 0x5C, CHR ''n''] y"
    and h2: "last y \<notin> set [CHR ''}'', CHR '']'', CHR '')'', CHR 0x22, CHR 0x27]"
  shows "clean_html_response y = y"
proof -
  have sp: "spaced y" using ti by (simp add: tidy_def)
  have ws: "c \<notin> set y" if "is_space c" "c \<noteq> CHR '' ''" for c
    using spaced_chars[OF sp] that by blast
  have 1: "str_replace y [CHR 0x5C, CHR ''n''] [] = y" using h1 by (rule replace_absent)
  have 2: "str_replace y [CHR 0x0A] '' '' = y"
    by (rule replace_char_absent, rule ws) (simp_all add: is_space_def)
  have 3: "str_replace y [CHR 0x0D] [] = y"
    by (rule replace_char_absent, rule ws) (simp_all add: is_space_def)
  have 4: "str_replace y [CHR 0x09] '' '' = y"
    by (rule replace_char_absent, rule ws) (simp_all add: is_space_def)
  have 5: "str_join '' '' (str_split y) = y" using ti by (rule tidy_split_join)
  have 6: "rstrip_chars y ''}])'' = y" using h2 by (intro rstrip_chars_id) simp
  have 7: "strip_chars y [CHR 0x22, CHR 0x27] = y"
    unfolding strip_chars_def
    using h2 hd by (simp add: lstrip_chars_id rstrip_chars_id)
  have n: "normalise y = y" by (simp add: normalise_def 1 2 3 4 5 6 7)
  have lt_in: "CHR ''<'' \<in> set y" using ne hd by (cases y) auto
  have dw: "dropWhile (\<lambda>c. c \<noteq> CHR ''<'') y = y" using ne hd by (cases y) auto
  have sw: "startswith y ''<''" using ne hd by (simp add: startswith_lt)
  have a: "anchor y = y"
    using anchored_start_index[OF an] by (auto simp: anchor_def lt_in dw sw)
  have t: "truncate y = y"
    using lt by (auto simp: truncate_def strip_id[OF ti])
  show ?thesis using ne by (simp add: clean_html_response_phases n a t)
qed

section \<open>The claims\<close>






text \<open>
  C6. \<^verbatim>\<open>send_to_client\<close> never raises. When the push reports that the connection is
  gone, it issues one delete for that connection to the connection table, after which
  (the table performing the delete) the connection has no entry; any other push error
  leaves the table alone. Either way the request goes on: \<^verbatim>\<open>lambda_handler\<close> returns
  a response.
\<close>

theorem send_to_client_swallows_errors:
  "fst (send_to_client w api c m s) = Inr ()
   \<and> (\<forall>e. post_to_connection w (length (posted s)) = Some e \<and> kind e = GoneException
          \<longrightarrow> ddb_calls (snd (send_to_client w api c m s)) = Suc (ddb_calls s)
            \<and> (dynamodb w (ddb_calls s) = None
                 \<longrightarrow> ws_connection_table (snd (send_to_client w api c m s)) c = None))
   \<and> (\<forall>e. post_to_connection w (length (posted s)) = Some e \<and> kind e \<noteq> GoneException
          \<longrightarrow> ws_connection_table (snd (send_to_client w api c m s)) = ws_connection_table s)
   \<and> (\<exists>r. fst (lambda_handler w ev s) = Inr r)"
proof -
  have "\<exists>r. fst (lambda_handler w ev s) = Inr r"
    by (simp add: lambda_handler_eq split: prod.splits sum.splits)
  then show ?thesis
    by (simp add: send_to_client_eq Let_def split: option.splits)
qed

text \<open>
  The theorem where every push answers that the connection \<^verbatim>\<open>C1\<close> is gone: the entry
  of \<^verbatim>\<open>C1\<close> is removed and the request returns a response.
\<close>

theorem send_to_client_swallows_errors_witness:
  "fst (send_to_client gone_world example_api ''C1'' strands_init_frame connected_state) = Inr ()
   \<and> ws_connection_table
        (snd (send_to_client gone_world example_api ''C1'' strands_init_frame connected_state))
        ''C1'' = None
   \<and> (\<exists>r. fst (lambda_handler gone_world (example_event ''$default'' body_bedrock)
                connected_state) = Inr r)"
  using send_to_client_swallows_errors [of gone_world example_api "''C1''" strands_init_frame
      connected_state "example_event ''$default'' body_bedrock"]
  by (simp add: gone_world_def example_world_def connected_state_def initial_state_def)

text \<open>
  C8, as stated, fails in its second half: when the delete raises, the disconnect is
  still acknowledged (as the first half says), and the entry of the connection is
  still in the table.
\<close>

theorem disconnect_with_failing_delete_counterexample:
  "fst (handle_disconnect failing_ddb_world ''C1'' connected_state)
     = Inr \<lparr>statusCode = 200, body = ''Disconnected''\<rparr>
   \<and> ws_connection_table (snd (handle_disconnect failing_ddb_world ''C1'' connected_state)) ''C1''
     = Some \<lparr>ttl = 600, timestamp = ''t0''\<rparr>"
  by (simp add: handle_disconnect_eq failing_ddb_world_def example_world_def connected_state_def
      initial_state_def)

text \<open>
  C8, amended. Every connect and every disconnect event is acknowledged with a 200
  response, also when the put or the delete raises; and after a disconnect event whose
  delete does not raise, the connection has no entry, whether it had one before or not.
\<close>

theorem lifecycle_always_acknowledged:
  "fst (handle_connect w c s) = Inr \<lparr>statusCode = 200, body = ''Connected''\<rparr>
   \<and> fst (handle_disconnect w c s) = Inr \<lparr>statusCode = 200, body = ''Disconnected''\<rparr>
   \<and> (dynamodb w (ddb_calls s) = None
        \<longrightarrow> ws_connection_table (snd (handle_disconnect w c s)) c = None)"
  by (auto simp: handle_connect_eq handle_disconnect_eq split: option.splits)

text \<open>
  The theorem with a working table, from a state where \<^verbatim>\<open>C1\<close> has an entry and from
  one where it has none.
\<close>

theorem lifecycle_always_acknowledged_witness:
  "ws_connection_table connected_state ''C1'' \<noteq> None
   \<and> ws_connection_table (snd (handle_disconnect example_world ''C1'' connected_state)) ''C1'' = None
   \<and> ws_connection_table initial_state ''C1'' = None
   \<and> ws_connection_table (snd (handle_disconnect example_world ''C1'' initial_state)) ''C1'' = None"
  using lifecycle_always_acknowledged [of example_world "''C1''" connected_state]
    lifecycle_always_acknowledged [of example_world "''C1''" initial_state]
  by (simp add: example_world_def connected_state_def initial_state_def)



text \<open>
  C4, as stated, fails: the extraction looks for a \<^verbatim>\<open>response\<close> field first. For the
  body \<^verbatim>\<open>{"response": {"status": "done"}}\<close>, which has neither a content list nor a
  message (at the top or under \<^verbatim>\<open>response\<close>), the extracted text is the JSON text of
  the \<^verbatim>\<open>response\<close> value, not of the whole body.
\<close>

theorem extraction_whole_body_counterexample:
  "extract_completion example_world (JObj [(''response'', JObj [(''status'', JStr ''done'')])])
     = Inr (json_dumps (JObj [(''status'', JStr ''done'')]))
   \<and> json_dumps (JObj [(''status'', JStr ''done'')])
     \<noteq> json_dumps (JObj [(''response'', JObj [(''status'', JStr ''done'')])])"
  by (simp add: extract_completion_def and_then_def py_in_def py_getitem_def json_quote_def
      json_escape_char_def)

text \<open>
  C4, amended. The extraction tries the shapes in a fixed order. For a body without a
  \<^verbatim>\<open>response\<close> field: a \<^verbatim>\<open>content\<close> list of \<^verbatim>\<open>{text}\<close> items gives the concatenation of
  the texts; else a \<^verbatim>\<open>message\<close> string gives that string; else the result is the JSON
  text of the whole body. For a body whose \<^verbatim>\<open>response\<close> field is an object the same
  three shapes are tried on that object, and the fallback is the JSON text of the
  \<^verbatim>\<open>response\<close> object. (\<^verbatim>\<open>invoke_strands_agent\<close> returns the extracted text after
  \<^verbatim>\<open>clean_html_response\<close>.)
\<close>

theorem extraction_priority:
  "(map_of kvs ''response'' = None \<and> map_of kvs ''content'' = Some (JArr (text_items ts))
      \<longrightarrow> extract_completion w (JObj kvs) = Inr (concat ts))
   \<and> (map_of kvs ''response'' = None \<and> \<not> has_content_list kvs
        \<and> map_of kvs ''message'' = Some (JStr x)
      \<longrightarrow> extract_completion w (JObj kvs) = Inr x)
   \<and> (map_of kvs ''response'' = None \<and> \<not> has_content_list kvs \<and> map_of kvs ''message'' = None
      \<longrightarrow> extract_completion w (JObj kvs) = Inr (json_dumps (JObj kvs)))
   \<and> (map_of kvs ''response'' = Some (JObj r) \<and> map_of r ''content'' = Some (JArr (text_items ts))
      \<longrightarrow> extract_completion w (JObj kvs) = Inr (concat ts))
   \<and> (map_of kvs ''response'' = Some (JObj r) \<and> \<not> has_content_list r
        \<and> map_of r ''message'' = Some (JStr x)
      \<longrightarrow> extract_completion w (JObj kvs) = Inr x)
   \<and> (map_of kvs ''response'' = Some (JObj r) \<and> \<not> has_content_list r \<and> map_of r ''message'' = None
      \<longrightarrow> extract_completion w (JObj kvs) = Inr (json_dumps (JObj r)))"
  by (auto simp: extract_completion_def and_then_def py_in_def py_getitem_def py_str_def
      has_content_list_def add_content_response_text_items add_content_body_text_items
      simp del: json_dumps.simps split: option.splits json.splits)

text \<open>The six cases of the theorem, at the bodies of the claim.\<close>

theorem extraction_priority_witness:
  "extract_completion example_world
      (JObj [(''content'', JArr [JObj [(''text'', JStr ''a'')], JObj [(''text'', JStr ''b'')]])])
     = Inr ''ab''
   \<and> extract_completion example_world (JObj [(''message'', JStr ''x'')]) = Inr ''x''
   \<and> extract_completion example_world (JObj [(''status'', JStr ''done'')])
     = Inr (json_dumps (JObj [(''status'', JStr ''done'')]))
   \<and> extract_completion example_world
      (JObj [(''response'', JObj [(''content'',
          JArr [JObj [(''text'', JStr ''a'')], JObj [(''text'', JStr ''b'')]])])])
     = Inr ''ab''
   \<and> extract_completion example_world (JObj [(''response'', JObj [(''message'', JStr ''x'')])])
     = Inr ''x''
   \<and> extract_completion example_world (JObj [(''response'', JObj [(''status'', JStr ''done'')])])
     = Inr (json_dumps (JObj [(''status'', JStr ''done'')]))"
  using
    extraction_priority [of "[(''content'', JArr [JObj [(''text'', JStr ''a'')], JObj [(''text'', JStr ''b'')]])]"
      "[''a'', ''b'']" example_world "''x''" "[]"]
    extraction_priority [of "[(''message'', JStr ''x'')]" "[]" example_world "''x''" "[]"]
    extraction_priority [of "[(''status'', JStr ''done'')]" "[]" example_world "''x''" "[]"]
    extraction_priority [of "[(''response'', JObj [(''content'',
          JArr [JObj [(''text'', JStr ''a'')], JObj [(''text'', JStr ''b'')]])])]"
      "[''a'', ''b'']" example_world "''x''"
      "[(''content'', JArr [JObj [(''text'', JStr ''a'')], JObj [(''text'', JStr ''b'')]])]"]
    extraction_priority [of "[(''response'', JObj [(''message'', JStr ''x'')])]" "[]" example_world
      "''x''" "[(''message'', JStr ''x'')]"]
    extraction_priority [of "[(''response'', JObj [(''status'', JStr ''done'')])]" "[]"
      example_world "''x''" "[(''status'', JStr ''done'')]"]
  by (simp add: text_items_def has_content_list_def del: json_dumps.simps)







text \<open>
  C10. The timestamp is read once, right after the invocation strategy returns (it is
  the clock reading of the state the strategy leaves). The final frame of the
  dispatcher carries it as \<^verbatim>\<open>safetyCheckPerformedAt\<close>, and if the request updates the
  work-order table at all, the update carries the same value.
\<close>

theorem stored_timestamp_is_final_frame_timestamp:
  assumes "raw_body ev = Some b" "json_loads w b = Some (JObj kvs)"
  shows "\<exists>completion s1 r s'.
      strategy w (requested kvs) (request_payload w (JObj kvs)) (session_of w kvs s) api c
          (s\<lparr>uuids := Suc (Suc (uuids s))\<rparr>) = (Inr completion, s1)
    \<and> handle_message w api c ev s = (Inr r, s')
    \<and> field ''safetyCheckPerformedAt'' (last (frames s'))
         = Some (JStr (now_isoformat w (clock s1)))
    \<and> (work_orders s' = work_orders s \<or>
         (\<exists>wid. work_orders s' = work_orders s
            @ [\<lparr>work_order_id = wid, safetyCheckResponse = extract_html_content completion,
                safetyCheckPerformedAt = now_isoformat w (clock s1)\<rparr>]))"
proof -
  from handle_message_summary[OF assms, where api=api and c=c and s=s]
  obtain completion s1 s3 rid where
    1: "strategy w (requested kvs) (request_payload w (JObj kvs)) (session_of w kvs s) api c
          (s\<lparr>uuids := Suc (Suc (uuids s))\<rparr>) = (Inr completion, s1)"
    and 2: "handle_message w api c ev s = (Inr \<lparr>statusCode = 200, body = ''Message sent''\<rparr>, s3)"
    and 5: "frames s3 = frames s1
         @ [final_frame rid completion (now_isoformat w (clock s1)) (requested kvs)]"
    and 6: "work_orders s3 = work_orders s \<or>
         (\<exists>wid. work_orders s3 = work_orders s
            @ [\<lparr>work_order_id = wid, safetyCheckResponse = extract_html_content completion,
                safetyCheckPerformedAt = now_isoformat w (clock s1)\<rparr>])"
    by blast
  have "field ''safetyCheckPerformedAt'' (last (frames s3))
         = Some (JStr (now_isoformat w (clock s1)))"
    by (simp add: 5 final_frame_def field_def)
  with 1 2 6 show ?thesis by blast
qed

text \<open>
  The theorem at the Variant A request of the example, which updates work order
  \<^verbatim>\<open>WO1\<close>: the update and the final frame both carry the reading \<^verbatim>\<open>T2\<close>.
\<close>

theorem stored_timestamp_is_final_frame_timestamp_witness:
  "(\<exists>completion s1 r s'.
      strategy example_world (JStr ''BedrockAgent'')
          (request_payload example_world (JObj [(''token'', JStr ''good''),
             (''workOrderDetails'', JObj [(''work_order_id'', JStr ''WO1''),
                                          (''location_name'', JStr ''Site1'')])]))
          (JStr ''u0'') example_api ''C1'' (initial_state\<lparr>uuids := Suc (Suc 0)\<rparr>)
        = (Inr completion, s1)
    \<and> handle_message example_world example_api ''C1'' (example_event ''$default'' body_bedrock)
         initial_state = (Inr r, s')
    \<and> field ''safetyCheckPerformedAt'' (last (frames s'))
         = Some (JStr (now_isoformat example_world (clock s1)))
    \<and> (work_orders s' = []  \<or>
         (\<exists>wid. work_orders s'
            = [\<lparr>work_order_id = wid, safetyCheckResponse = extract_html_content completion,
                safetyCheckPerformedAt = now_isoformat example_world (clock s1)\<rparr>])))
   \<and> work_orders (snd (handle_message example_world example_api ''C1''
         (example_event ''$default'' body_bedrock) initial_state))
       = [\<lparr>work_order_id = JStr ''WO1'', safetyCheckResponse = ''<div>Report</div>'',
           safetyCheckPerformedAt = ''T2''\<rparr>]
   \<and> field ''safetyCheckPerformedAt'' (last (frames (snd (handle_message example_world
         example_api ''C1'' (example_event ''$default'' body_bedrock) initial_state))))
       = Some (JStr ''T2'')"
proof -
  have e: "work_orders (snd (handle_message example_world example_api ''C1''
         (example_event ''$default'' body_bedrock) initial_state))
       = [\<lparr>work_order_id = JStr ''WO1'', safetyCheckResponse = ''<div>Report</div>'',
           safetyCheckPerformedAt = ''T2''\<rparr>]
   \<and> field ''safetyCheckPerformedAt'' (last (frames (snd (handle_message example_world
         example_api ''C1'' (example_event ''$default'' body_bedrock) initial_state))))
       = Some (JStr ''T2'')"
    by (simp add: example_bedrock_run frames_def final_frame_def field_def)
  show ?thesis
    using stored_timestamp_is_final_frame_timestamp
      [OF example_bodies(1) example_bodies(2),
       where api=example_api and c="''C1''" and s=initial_state and rk1="''$default''"] e
    by (simp add: requested_def session_of_def example_world_sel initial_state_def
      dec_nat.simps digit_chars del: json_dumps.simps)
qed

text \<open>
  C7, as stated, fails: the brackets are stripped from the end before the quotes are, so
  a bracket that a trailing quote protects in the first pass is stripped in the second.
  The text \<^verbatim>\<open><}"\<close> is cleaned to \<^verbatim>\<open><}\<close>, and \<^verbatim>\<open><}\<close> is cleaned to \<^verbatim>\<open><\<close>.
\<close>

theorem clean_not_idempotent_counterexample:
  "clean_html_response [CHR ''<'', CHR ''}'', CHR 0x22] = [CHR ''<'', CHR ''}'']
   \<and> clean_html_response [CHR ''<'', CHR ''}''] = [CHR ''<'']
   \<and> clean_html_response (clean_html_response [CHR ''<'', CHR ''}'', CHR 0x22])
     \<noteq> clean_html_response [CHR ''<'', CHR ''}'', CHR 0x22]"
  by (simp add: clean_html_response_def str_replace_def startswith_def str_split_def is_space_def
      rstrip_chars_def strip_chars_def lstrip_chars_def find_start_index_def
      html_start_patterns_def closing_tag_at_def str_strip_def)

text \<open>
  C7, amended. The HTML cleaner is idempotent on every text whose cleaned form contains
  no literal backslash-n (the two characters) and does not end in one of the characters
  \<^verbatim>\<open>} ] ) " '\<close>: for such a text x, \<^verbatim>\<open>clean(clean(x)) == clean(x)\<close>.
\<close>

theorem clean_idempotent_on_settled_output:
  assumes "\<not> str_contains [CHR 0x5C, CHR ''n''] (clean_html_response x)"
    and "clean_html_response x = []
         \<or> last (clean_html_response x) \<notin> set [CHR ''}'', CHR '']'', CHR '')'', CHR 0x22, CHR 0x27]"
  shows "clean_html_response (clean_html_response x) = clean_html_response x"
proof (cases "clean_html_response x = []")
  case True
  then show ?thesis by (simp add: clean_html_response_def)
next
  case False
  then have x: "x \<noteq> []" by (auto simp: clean_html_response_def)
  let ?r = "anchor (normalise x)"
  have y: "clean_html_response x = truncate ?r" using x by (simp add: clean_html_response_phases)
  from anchor_props[OF spaced_normalise, of x]
  have "spaced ?r" "?r = [] \<or> hd ?r = CHR ''<''" "anchored ?r" by auto
  from truncate_props[OF this] False y
  have p: "hd (truncate ?r) = CHR ''<''" "tidy (truncate ?r)" "anchored (truncate ?r)"
    "last_tag_match (truncate ?r) = None
       \<or> last_tag_match (truncate ?r) = Some (length (truncate ?r))"
    by auto
  from clean_fixpoint[OF _ p] False assms show ?thesis by (simp add: y)
qed

text \<open>
  The theorem at a text on which every phase of the cleaner acts: leading prose, a
  newline, a report and trailing brackets.
\<close>

theorem clean_idempotent_on_settled_output_witness:
  "clean_html_response (''Here: <div>Report</div>'' @ [CHR 0x0A] @ ''}]}'') = ''<div>Report</div>''
   \<and> \<not> str_contains [CHR 0x5C, CHR ''n'']
         (clean_html_response (''Here: <div>Report</div>'' @ [CHR 0x0A] @ ''}]}''))
   \<and> clean_html_response
         (clean_html_response (''Here: <div>Report</div>'' @ [CHR 0x0A] @ ''}]}''))
       = clean_html_response (''Here: <div>Report</div>'' @ [CHR 0x0A] @ ''}]}'')"
proof -
  have c: "clean_html_response (''Here: <div>Report</div>'' @ [CHR 0x0A] @ ''}]}'')
      = ''<div>Report</div>''"
    by (simp add: clean_html_response_def str_replace_def startswith_def str_split_def
        is_space_def rstrip_chars_def strip_chars_def lstrip_chars_def find_start_index_def
        html_start_patterns_def closing_tag_at_def str_strip_def)
  have n: "\<not> str_contains [CHR 0x5C, CHR ''n''] ''<div>Report</div>''"
    by (simp add: str_contains_def startswith_def)
  from clean_idempotent_on_settled_output
         [of "''Here: <div>Report</div>'' @ [CHR 0x0A] @ ''}]}''"] c n
  show ?thesis by simp
qed

end
